theory Spec2Isabelle
  imports Complex_Main "HOL-Library.Word" "HOL-Library.Sublist" "HOL-Library.AList"
begin

section \<open>JavaScript strings\<close>

text \<open>
  A JavaScript string is a sequence of UTF-16 code units: \<open>length\<close>, \<open>substring\<close>, and
  a regular expression without the \<open>u\<close> flag all count and match code units. The server
  (\<open>voice-server/server.ts\<close>) is modelled over that type. ASCII literals of the source
  are written \<open>js ''...''\<close>; the emoji of the source are written as their code units.
\<close>

type_synonym jschar = "16 word"
type_synonym jsstring = "jschar list"

definition js :: "string \<Rightarrow> jsstring" where
  "js s = map of_char s"

text \<open>\<open>String.prototype.includes\<close>: some suffix starts with the needle.\<close>

fun str_includes :: "jsstring \<Rightarrow> jsstring \<Rightarrow> bool" where
  "str_includes [] sub = (sub = [])"
| "str_includes (c # cs) sub = (prefix sub (c # cs) \<or> str_includes cs sub)"

text \<open>
  White space of ECMAScript (WhiteSpace and LineTerminator): what \<open>\s\<close> matches and what
  \<open>trim\<close> strips.
\<close>

definition is_space :: "jschar \<Rightarrow> bool" where
  "is_space c \<longleftrightarrow>
     c = 0x09 \<or> c = 0x0A \<or> c = 0x0B \<or> c = 0x0C \<or> c = 0x0D \<or> c = 0x20 \<or> c = 0xA0 \<or>
     c = 0x1680 \<or> (0x2000 \<le> c \<and> c \<le> 0x200A) \<or> c = 0x2028 \<or> c = 0x2029 \<or>
     c = 0x202F \<or> c = 0x205F \<or> c = 0x3000 \<or> c = 0xFEFF"

text \<open>\<open>\w\<close> without the \<open>u\<close> and \<open>i\<close> flags: \<open>[A-Za-z0-9_]\<close>.\<close>

definition is_word :: "jschar \<Rightarrow> bool" where
  "is_word c \<longleftrightarrow>
     (0x41 \<le> c \<and> c \<le> 0x5A) \<or> (0x61 \<le> c \<and> c \<le> 0x7A) \<or> (0x30 \<le> c \<and> c \<le> 0x39) \<or> c = 0x5F"

definition trim :: "jsstring \<Rightarrow> jsstring" where
  "trim s = rev (dropWhile is_space (rev (dropWhile is_space s)))"

definition substring0 :: "nat \<Rightarrow> jsstring \<Rightarrow> jsstring" where
  "substring0 n s = take n s"

text \<open>
  \<open>toLowerCase\<close> is applied by the source only to text matched by \<open>\w+\<close>, which is ASCII;
  on ASCII it maps \<open>A-Z\<close> to \<open>a-z\<close> and nothing else.
\<close>

definition lower_ascii :: "jschar \<Rightarrow> jschar" where
  "lower_ascii c = (if 0x41 \<le> c \<and> c \<le> 0x5A then c + 0x20 else c)"

definition toLowerCase :: "jsstring \<Rightarrow> jsstring" where
  "toLowerCase s = map lower_ascii s"

section \<open>Global replacement by a regular expression\<close>

text \<open>
  \<open>s.replace(/re/g, rep)\<close> scans \<open>s\<close> from the left. At each position the expression is
  tried at that position; a match of \<open>n\<close> code units is replaced and the scan goes on
  behind it, otherwise the code unit is kept and the scan moves one to the right. None of
  the expressions of the source has an anchor, a look-behind or a word boundary, so whether
  and what they match at a position depends on the text from that position only: a
  matcher takes that text and returns the length of the match and its replacement. (An
  empty match is replaced in front of the code unit, which is kept; the expressions of the
  source never match the empty string.)
\<close>

type_synonym matcher = "jsstring \<Rightarrow> (nat \<times> jsstring) option"

fun replace_g :: "matcher \<Rightarrow> jsstring \<Rightarrow> jsstring" where
  "replace_g m [] = []"
| "replace_g m (c # cs) =
     (case m (c # cs) of
        None \<Rightarrow> c # replace_g m cs
      | Some (n, rep) \<Rightarrow>
          (if n = 0 then rep @ c # replace_g m cs
           else rep @ replace_g m (drop (n - 1) cs)))"

text \<open>
  \<open>/<script/gi\<close>. With the \<open>i\<close> flag and no \<open>u\<close> flag two code units match when their
  canonical forms (\<open>toUpperCase\<close>, unless that leaves ASCII from outside it) agree; for the
  ASCII letters of this pattern that is equality up to ASCII case.
\<close>

definition eq_ci :: "jschar \<Rightarrow> jschar \<Rightarrow> bool" where
  "eq_ci a b \<longleftrightarrow> lower_ascii a = lower_ascii b"

definition m_script :: matcher where
  "m_script s =
     (if length s \<ge> 7 \<and> list_all2 eq_ci (take 7 s) (js ''<script'') then Some (7, []) else None)"

text \<open>\<open>/\.\.\//g\<close>\<close>

definition m_dotdot :: matcher where
  "m_dotdot s = (if prefix (js ''../'') s then Some (3, []) else None)"

text \<open>
  The character class of the third expression: semicolon, ampersand, bar, greater-than,
  less-than, backtick, dollar and backslash.
\<close>

definition is_shell_meta :: "jschar \<Rightarrow> bool" where
  "is_shell_meta c \<longleftrightarrow>
     c = 0x3B \<or> c = 0x26 \<or> c = 0x7C \<or> c = 0x3E \<or> c = 0x3C \<or> c = 0x60 \<or> c = 0x24 \<or> c = 0x5C"

definition m_meta :: matcher where
  "m_meta s = (case s of [] \<Rightarrow> None | c # _ \<Rightarrow> if is_shell_meta c then Some (1, []) else None)"

text \<open>
  \<open>/DD([^D]+)DD/g\<close> with replacement \<open>$1\<close>, for a delimiter \<open>D\<close> written \<open>k\<close> times:
  \<open>/\*\*([^*]+)\*\*/g\<close>, \<open>/\*([^*]+)\*/g\<close> and \<open>/`([^`]+)`/g\<close>. The group is greedy: it takes
  every code unit up to the next delimiter, and giving some back cannot help, since the
  code unit after a shorter group is not the delimiter. The replacement is the group.
\<close>

definition m_wrapped :: "jschar \<Rightarrow> nat \<Rightarrow> matcher" where
  "m_wrapped d k s =
     (let ds = replicate k d in
      if prefix ds s then
        (let body = takeWhile (\<lambda>c. c \<noteq> d) (drop k s);
             rest = dropWhile (\<lambda>c. c \<noteq> d) (drop k s)
         in if body \<noteq> [] \<and> prefix ds rest then Some (k + length body + k, body) else None)
      else None)"

text \<open>
  \<open>/#{1,6}\s+/g\<close>. The quantifier takes up to six \<open>#\<close>; with fewer than it could take, the
  next code unit is a \<open>#\<close>, not white space, so only the greedy choice can match. Then all
  the white space that follows is taken, at least one.
\<close>

definition m_heading :: matcher where
  "m_heading s =
     (let h = min 6 (length (takeWhile (\<lambda>c. c = 0x23) s));
          w = length (takeWhile is_space (drop h s))
      in if h \<ge> 1 \<and> w \<ge> 1 then Some (h + w, []) else None)"

section \<open>Sanitising and validating\<close>

definition sanitizeForSpeech :: "jsstring \<Rightarrow> jsstring" where
  "sanitizeForSpeech input =
     substring0 500 (trim (
       replace_g m_heading (
       replace_g (m_wrapped 0x60 1) (
       replace_g (m_wrapped 0x2A 1) (
       replace_g (m_wrapped 0x2A 2) (
       replace_g m_meta (
       replace_g m_dotdot (
       replace_g m_script input))))))))"

text \<open>
  A value of type \<open>any\<close>, as \<open>JSON.parse\<close> can produce it, and \<open>undefined\<close> for a
  property that is absent. \<open>JNum\<close> carries the value of the parsed number; \<open>JObj\<close> lists
  the own properties of the parsed object.
\<close>

datatype jsvalue =
    JUndefined
  | JNull
  | JBool bool
  | JNum rat
  | JStr jsstring
  | JArr "jsvalue list"
  | JObj "(jsstring \<times> jsvalue) list"

fun truthy :: "jsvalue \<Rightarrow> bool" where
  "truthy JUndefined = False"
| "truthy JNull = False"
| "truthy (JBool b) = b"
| "truthy (JNum r) = (r \<noteq> 0)"
| "truthy (JStr s) = (s \<noteq> [])"
| "truthy (JArr _) = True"
| "truthy (JObj _) = True"

fun is_string :: "jsvalue \<Rightarrow> bool" where
  "is_string (JStr _) = True"
| "is_string _ = False"

record validation =
  valid :: bool
  error :: "jsstring option"
  sanitized :: "jsstring option"

fun the_string :: "jsvalue \<Rightarrow> jsstring" where
  "the_string (JStr s) = s"
| "the_string _ = []"

definition validateInput :: "jsvalue \<Rightarrow> validation" where
  "validateInput input =
     (if \<not> truthy input \<or> \<not> is_string input then
        \<lparr>valid = False, error = Some (js ''Invalid input type''), sanitized = None\<rparr>
      else if length (the_string input) > 500 then
        \<lparr>valid = False, error = Some (js ''Message too long (max 500 characters)''),
         sanitized = None\<rparr>
      else
        (let s = sanitizeForSpeech (the_string input) in
         if s = [] \<or> length s = 0 then
           \<lparr>valid = False,
            error = Some (js ''Message contains no valid content after sanitization''),
            sanitized = None\<rparr>
         else \<lparr>valid = True, error = None, sanitized = Some s\<rparr>))"

section \<open>The emotional marker\<close>

text \<open>
  The table \<open>emojiToEmotion\<close>, in the order of the source, each emoji as its UTF-16 code
  units (the warning sign is followed by the variation selector \<open>U+FE0F\<close>, as in the
  source). The alternatives of the expression are the same emoji in the same order; none
  of them is a prefix of another, so at most one of them matches at a position.
\<close>

definition emojiToEmotion :: "(jsstring \<times> jsstring) list" where
  "emojiToEmotion =
     [([0xD83D, 0xDCA5], js ''excited''),
      ([0xD83C, 0xDF89], js ''celebration''),
      ([0xD83D, 0xDCA1], js ''insight''),
      ([0xD83C, 0xDFA8], js ''creative''),
      ([0x2728], js ''success''),
      ([0xD83D, 0xDCC8], js ''progress''),
      ([0xD83D, 0xDD0D], js ''investigating''),
      ([0xD83D, 0xDC1B], js ''debugging''),
      ([0xD83D, 0xDCDA], js ''learning''),
      ([0xD83E, 0xDD14], js ''pondering''),
      ([0xD83C, 0xDFAF], js ''focused''),
      ([0x26A0, 0xFE0F], js ''caution''),
      ([0xD83D, 0xDEA8], js ''urgent'')]"

record emotion_match =
  em_emoji :: jsstring
  em_label :: jsstring
  em_length :: nat

text \<open>
  The expression of \<open>extractEmotionalMarker\<close> tried at the start of \<open>s\<close>: an opening
  bracket, one of the emoji, \<open>\s+\<close>, \<open>(\w+)\<close>, a closing bracket. White space and word
  characters are disjoint and a bracket is neither, so the greedy choices are the only
  ones that can match.
\<close>

definition m_emotion :: "jsstring \<Rightarrow> emotion_match option" where
  "m_emotion s =
     (case s of
        [] \<Rightarrow> None
      | c # r \<Rightarrow>
          if c \<noteq> 0x5B then None
          else
            (case find (\<lambda>e. prefix e r) (map fst emojiToEmotion) of
               None \<Rightarrow> None
             | Some e \<Rightarrow>
                 (let r1 = drop (length e) r;
                      ws = takeWhile is_space r1;
                      r2 = dropWhile is_space r1;
                      w = takeWhile is_word r2;
                      r3 = dropWhile is_word r2
                  in if ws \<noteq> [] \<and> w \<noteq> [] \<and> prefix [0x5D] r3
                     then Some \<lparr>em_emoji = e, em_label = w,
                                 em_length = 1 + length e + length ws + length w + 1\<rparr>
                     else None)))"

text \<open>
  \<open>s.match(re)\<close> for an expression without the \<open>g\<close> flag: the leftmost position where
  the expression matches, with the match.
\<close>

fun re_search :: "(jsstring \<Rightarrow> 'a option) \<Rightarrow> jsstring \<Rightarrow> (nat \<times> 'a) option" where
  "re_search m [] = map_option (Pair 0) (m [])"
| "re_search m (c # cs) =
     (case m (c # cs) of
        Some r \<Rightarrow> Some (0, r)
      | None \<Rightarrow> map_option (\<lambda>(i, r). (Suc i, r)) (re_search m cs))"

text \<open>
  \<open>s.replace(pat, '')\<close> for a string \<open>pat\<close>: the first occurrence of \<open>pat\<close> is
  removed.
\<close>

fun remove_first :: "jsstring \<Rightarrow> jsstring \<Rightarrow> jsstring" where
  "remove_first pat [] = []"
| "remove_first pat (c # cs) =
     (if prefix pat (c # cs) then drop (length pat) (c # cs) else c # remove_first pat cs)"

record marker =
  cleaned :: jsstring
  emotion :: "jsstring option"

definition extractEmotionalMarker :: "jsstring \<Rightarrow> marker" where
  "extractEmotionalMarker message =
     (case re_search m_emotion message of
        None \<Rightarrow> \<lparr>cleaned = message, emotion = None\<rparr>
      | Some (i, em) \<Rightarrow>
          (let emotionName = toLowerCase (em_label em) in
           if map_of emojiToEmotion (em_emoji em) = Some emotionName then
             \<lparr>cleaned = trim (remove_first (take (em_length em) (drop i message)) message),
              emotion = Some emotionName\<rparr>
           else \<lparr>cleaned = message, emotion = None\<rparr>))"

section \<open>Errors, configuration, state and the outside world\<close>

text \<open>
  A thrown \<open>Error\<close> object: its \<open>name\<close> and its \<open>message\<close>. \<open>new Error(m)\<close> has the name
  \<open>Error\<close>.
\<close>

record js_error =
  err_name :: jsstring
  err_message :: jsstring

definition Error :: "jsstring \<Rightarrow> js_error" where
  "Error m = \<lparr>err_name = js ''Error'', err_message = m\<rparr>"

text \<open>\<open>Error.prototype.toString\<close>, which a template literal applies to an error.\<close>

definition error_toString :: "js_error \<Rightarrow> jsstring" where
  "error_toString e =
     (if err_name e = [] then err_message e
      else if err_message e = [] then err_name e
      else err_name e @ js '': '' @ err_message e)"

text \<open>A number in a template literal; the numbers printed are natural numbers.\<close>

fun show_nat :: "nat \<Rightarrow> jsstring" where
  "show_nat n =
     (if n < 10 then [of_nat (48 + n)] else show_nat (n div 10) @ [of_nat (48 + n mod 10)])"

declare show_nat.simps [simp del]

text \<open>
  The constants the server reads from the environment when it starts. An unset
  \<open>ELEVENLABS_API_KEY\<close> is \<open>None\<close>. \<open>TTS_PROVIDER\<close> is whatever string the environment
  holds (the source casts it without a check), \<open>elevenlabs\<close> when unset.
\<close>

record config =
  PORT :: nat
  ELEVENLABS_API_KEY :: "jsstring option"
  DEFAULT_VOICE_ID :: jsstring
  CHIME_ENABLED :: bool
  TTS_PROVIDER :: jsstring
  PIPER_MODEL_PATH :: jsstring
  MACOS_VOICE :: jsstring

definition ELEVENLABS_MAX_FAILS :: nat where
  "ELEVENLABS_MAX_FAILS = 3"

definition RATE_LIMIT :: nat where
  "RATE_LIMIT = 10"

definition RATE_WINDOW :: nat where
  "RATE_WINDOW = 60000"

text \<open>
  The mutable state of the process: the table \<open>requestCounts\<close>, the counter
  \<open>elevenLabsFailCount\<close>, and the content of the file \<open>voice-server/error.log\<close>.
\<close>

record rate_record =
  count :: nat
  resetTime :: nat

record server_state =
  requestCounts :: "jsstring \<rightharpoonup> rate_record"
  elevenLabsFailCount :: nat
  errorLog :: jsstring

text \<open>
  What the outside world answers while one request is handled: the clock, the HTTP call
  to ElevenLabs, the \<open>piper\<close> and \<open>say\<close> processes, the audio player, the three
  \<open>TypeError\<close>s of the runtime that the handler can run into (their wording is the
  runtime's). An HTTP response has a status and the results of reading its body as text
  and as bytes.
\<close>

type_synonym audio = "8 word list"

record http_response =
  status :: nat
  text_body :: "js_error + jsstring"
  arrayBuffer :: "js_error + audio"

definition response_ok :: "http_response \<Rightarrow> bool" where
  "response_ok r \<longleftrightarrow> 200 \<le> status r \<and> status r \<le> 299"

record world =
  date_now :: nat
  isoString :: jsstring
  elevenlabs_fetch :: "js_error + http_response"
  piper_model_exists :: bool
  piper_run :: "js_error + audio"
  say_run :: "js_error + audio"
  afplay_run :: "js_error option"
  typeError_null :: js_error
  typeError_toString :: js_error
  typeError_substring :: js_error

section \<open>The providers and their cascade\<close>

definition truthy_key :: "jsstring option \<Rightarrow> bool" where
  "truthy_key k \<longleftrightarrow> (case k of None \<Rightarrow> False | Some s \<Rightarrow> s \<noteq> [])"

text \<open>
  \<open>generateSpeechElevenLabs\<close> returns the audio or throws, and leaves a new value of the
  failure counter. It checks the key, sends the request and waits; \<open>elevenlabs_settle\<close> is
  what it does once the request has settled, on the counter as it stands then. Without a
  response, or with a body that cannot be read, it throws and leaves the counter alone.
\<close>

definition elevenlabs_settle :: "js_error + http_response \<Rightarrow> nat \<Rightarrow> (js_error + audio) \<times> nat" where
  "elevenlabs_settle outcome failCount =
     (case outcome of
        Inl e \<Rightarrow> (Inl e, failCount)
      | Inr response \<Rightarrow>
          if \<not> response_ok response then
            (case text_body response of
               Inl e \<Rightarrow> (Inl e, failCount)
             | Inr errorText \<Rightarrow>
                 (Inl (Error (js ''ElevenLabs API error: '' @ show_nat (status response)
                               @ js '' - '' @ errorText)),
                  if status response = 429 \<or> str_includes errorText (js ''quota'')
                       \<or> str_includes errorText (js ''limit'')
                  then ELEVENLABS_MAX_FAILS else failCount))
          else (arrayBuffer response, 0))"

definition generateSpeechElevenLabs :: "config \<Rightarrow> world \<Rightarrow> nat \<Rightarrow> (js_error + audio) \<times> nat" where
  "generateSpeechElevenLabs cfg w failCount =
     (if \<not> truthy_key (ELEVENLABS_API_KEY cfg) then
        (Inl (Error (js ''ElevenLabs API key not configured'')), failCount)
      else elevenlabs_settle (elevenlabs_fetch w) failCount)"

definition generateSpeechPiper :: "config \<Rightarrow> world \<Rightarrow> js_error + audio" where
  "generateSpeechPiper cfg w =
     (if \<not> piper_model_exists w then
        Inl (Error (js ''Piper model not found at '' @ PIPER_MODEL_PATH cfg))
      else piper_run w)"

definition generateSpeechMacOS :: "world \<Rightarrow> js_error + audio" where
  "generateSpeechMacOS w = say_run w"

datatype TTSProvider = elevenlabs | piper | macos

datatype audio_format = mp3 | wav | aiff

record speech =
  sp_audio :: audio
  sp_provider :: TTSProvider
  sp_format :: audio_format

text \<open>The list a call of \<open>generateSpeech\<close> builds before it tries the providers.\<close>

definition providers :: "config \<Rightarrow> world \<Rightarrow> nat \<Rightarrow> TTSProvider list" where
  "providers cfg w failCount =
     (if TTS_PROVIDER cfg = js ''elevenlabs'' \<and> truthy_key (ELEVENLABS_API_KEY cfg)
         \<and> failCount < ELEVENLABS_MAX_FAILS then [elevenlabs] else [])
     @ (if TTS_PROVIDER cfg \<noteq> js ''macos'' \<and> piper_model_exists w then [piper] else [])
     @ [macos]"

text \<open>
  The loop over the list, with \<open>lastError\<close> and the failure counter. A provider that
  returns ends the loop; one that throws is caught, and a throw of ElevenLabs increments
  the counter.
\<close>

fun try_providers ::
  "config \<Rightarrow> world \<Rightarrow> TTSProvider list \<Rightarrow> js_error option \<Rightarrow> nat \<Rightarrow> (js_error + speech) \<times> nat"
where
  "try_providers cfg w [] lastError failCount =
     (Inl (case lastError of Some e \<Rightarrow> e | None \<Rightarrow> Error (js ''All TTS providers failed'')),
      failCount)"
| "try_providers cfg w (elevenlabs # ps) lastError failCount =
     (case generateSpeechElevenLabs cfg w failCount of
        (Inr a, fc) \<Rightarrow> (Inr \<lparr>sp_audio = a, sp_provider = elevenlabs, sp_format = mp3\<rparr>, fc)
      | (Inl e, fc) \<Rightarrow> try_providers cfg w ps (Some e) (fc + 1))"
| "try_providers cfg w (piper # ps) lastError failCount =
     (case generateSpeechPiper cfg w of
        Inr a \<Rightarrow> (Inr \<lparr>sp_audio = a, sp_provider = piper, sp_format = wav\<rparr>, failCount)
      | Inl e \<Rightarrow> try_providers cfg w ps (Some e) failCount)"
| "try_providers cfg w (macos # ps) lastError failCount =
     (case generateSpeechMacOS w of
        Inr a \<Rightarrow> (Inr \<lparr>sp_audio = a, sp_provider = macos, sp_format = aiff\<rparr>, failCount)
      | Inl e \<Rightarrow> try_providers cfg w ps (Some e) failCount)"

definition generateSpeech :: "config \<Rightarrow> world \<Rightarrow> nat \<Rightarrow> (js_error + speech) \<times> nat" where
  "generateSpeech cfg w failCount =
     try_providers cfg w (providers cfg w failCount) None failCount"

definition playAudio :: "world \<Rightarrow> js_error + unit" where
  "playAudio w = (case afplay_run w of None \<Rightarrow> Inr () | Some e \<Rightarrow> Inl e)"

section \<open>Sending a notification\<close>

text \<open>
  \<open>sendNotification\<close> validates, extracts the marker and, when voice is enabled, speaks:
  a throw of \<open>generateSpeech\<close> or of \<open>playAudio\<close> is caught there and written to the
  error log. Between the marker and the call of \<open>generateSpeech\<close> the source picks the
  voice and its settings, which go into the request to ElevenLabs only, and plays the
  chime, whose promise never rejects; the answer of ElevenLabs and of the players is an
  input here, so those steps leave no trace in the model.

  The entry is written with \<open>Bun.write(path, text, { flags: 'a' })\<close>. \<open>Bun.write\<close> knows the
  options \<open>mode\<close> and \<open>createPath\<close> and no flag to append: it replaces the content of the
  file, so after the write the log holds the new entry and nothing else. The write is
  taken to succeed.
\<close>

definition error_text :: "validation \<Rightarrow> jsstring" where
  "error_text v = (case error v of Some e \<Rightarrow> e | None \<Rightarrow> js ''undefined'')"

definition sanitized_text :: "validation \<Rightarrow> jsstring" where
  "sanitized_text v = (case sanitized v of Some s \<Rightarrow> s | None \<Rightarrow> [])"

definition log_tts_error :: "world \<Rightarrow> js_error \<Rightarrow> jsstring \<Rightarrow> server_state \<Rightarrow> server_state" where
  "log_tts_error w e safeMessage st =
     st\<lparr>errorLog :=
          isoString w @ js '' - TTS Error: ''
          @ (if err_message e \<noteq> [] then err_message e else error_toString e)
          @ [0x0A] @ js ''Message: '' @ safeMessage @ [0x0A, 0x0A]\<rparr>"

definition sendNotification ::
  "config \<Rightarrow> world \<Rightarrow> jsvalue \<Rightarrow> jsvalue \<Rightarrow> bool \<Rightarrow> jsstring option \<Rightarrow> server_state
     \<Rightarrow> (js_error + unit) \<times> server_state"
where
  "sendNotification cfg w title message voiceEnabled voiceId st =
     (let titleValidation = validateInput title;
          messageValidation = validateInput message
      in if \<not> valid titleValidation then
           (Inl (Error (js ''Invalid title: '' @ error_text titleValidation)), st)
         else if \<not> valid messageValidation then
           (Inl (Error (js ''Invalid message: '' @ error_text messageValidation)), st)
         else
           (let safeMessage = cleaned (extractEmotionalMarker (sanitized_text messageValidation))
            in if voiceEnabled then
                 (case generateSpeech cfg w (elevenLabsFailCount st) of
                    (Inl e, fc) \<Rightarrow>
                      (Inr (), log_tts_error w e safeMessage (st\<lparr>elevenLabsFailCount := fc\<rparr>))
                  | (Inr result, fc) \<Rightarrow>
                      (case playAudio w of
                         Inl e \<Rightarrow>
                           (Inr (),
                            log_tts_error w e safeMessage (st\<lparr>elevenLabsFailCount := fc\<rparr>))
                       | Inr _ \<Rightarrow> (Inr (), st\<lparr>elevenLabsFailCount := fc\<rparr>)))
               else (Inr (), st)))"

section \<open>The rate limiter\<close>

definition checkRateLimit ::
  "nat \<Rightarrow> jsstring \<Rightarrow> (jsstring \<rightharpoonup> rate_record) \<Rightarrow> bool \<times> (jsstring \<rightharpoonup> rate_record)"
where
  "checkRateLimit t ip tbl =
     (case tbl ip of
        None \<Rightarrow> (True, tbl(ip \<mapsto> \<lparr>count = 1, resetTime = t + RATE_WINDOW\<rparr>))
      | Some r \<Rightarrow>
          if t > resetTime r then
            (True, tbl(ip \<mapsto> \<lparr>count = 1, resetTime = t + RATE_WINDOW\<rparr>))
          else if count r \<ge> RATE_LIMIT then (False, tbl)
          else (True, tbl(ip \<mapsto> r\<lparr>count := count r + 1\<rparr>)))"

section \<open>The HTTP handler\<close>

record request =
  req_method :: jsstring
  req_pathname :: jsstring
  x_forwarded_for :: "jsstring option"
  req_json :: "js_error + jsvalue"

datatype body = NoBody | TextBody jsstring | JsonBody jsvalue

record response =
  resp_status :: nat
  resp_headers :: "(jsstring \<times> jsstring) list"
  resp_body :: body

definition corsHeaders :: "(jsstring \<times> jsstring) list" where
  "corsHeaders =
     [(js ''Access-Control-Allow-Origin'', js ''http://localhost''),
      (js ''Access-Control-Allow-Methods'', js ''GET, POST, OPTIONS''),
      (js ''Access-Control-Allow-Headers'', js ''Content-Type'')]"

definition jsonHeaders :: "(jsstring \<times> jsstring) list" where
  "jsonHeaders = corsHeaders @ [(js ''Content-Type'', js ''application/json'')]"

text \<open>
  \<open>data.key\<close> for a value \<open>data\<close> that is not \<open>null\<close>: the property of an object,
  \<open>undefined\<close> where there is none; the keys the handler reads are no properties of
  numbers, strings, booleans or arrays.
\<close>

fun get_prop :: "jsvalue \<Rightarrow> jsstring \<Rightarrow> jsvalue" where
  "get_prop (JObj fs) k = (case map_of fs k of Some v \<Rightarrow> v | None \<Rightarrow> JUndefined)"
| "get_prop _ k = JUndefined"

definition js_or :: "jsvalue \<Rightarrow> jsvalue \<Rightarrow> jsvalue" where
  "js_or a b = (if truthy a then a else b)"

text \<open>
  What the handler reads from the parsed body \<open>data\<close>: the title and the message with
  their defaults, the voice switch, the voice.
\<close>

definition body_title :: "jsvalue \<Rightarrow> jsvalue" where
  "body_title data = js_or (get_prop data (js ''title'')) (JStr (js ''PAI Notification''))"

definition body_message :: "jsvalue \<Rightarrow> jsvalue" where
  "body_message data = js_or (get_prop data (js ''message'')) (JStr (js ''Task completed''))"

definition body_voiceEnabled :: "jsvalue \<Rightarrow> bool" where
  "body_voiceEnabled data \<longleftrightarrow> get_prop data (js ''voice_enabled'') \<noteq> JBool False"

definition body_voiceId :: "jsvalue \<Rightarrow> jsvalue" where
  "body_voiceId data =
     js_or (get_prop data (js ''voice_id'')) (js_or (get_prop data (js ''voice_name'')) JNull)"

text \<open>
  The log line of the handler puts \<open>title\<close> into a template literal, which turns it into
  a string. For a parsed object that throws a \<open>TypeError\<close> when the object has a property
  of its own named \<open>toString\<close>: no value of a parsed body can be called, and
  \<open>valueOf\<close> gives no primitive. An array is joined from the strings of its elements
  (\<open>null\<close> counts as empty), so it throws when one of them does.
\<close>

fun toString_throws :: "jsvalue \<Rightarrow> bool" where
  "toString_throws (JObj fs) = (map_of fs (js ''toString'') \<noteq> None)"
| "toString_throws (JArr xs) = (\<exists>x\<in>set xs. toString_throws x)"
| "toString_throws _ = False"

text \<open>
  The body of the \<open>try\<close> block of \<open>POST /notify\<close>. Reading a property of \<open>null\<close> throws;
  in the log line, turning \<open>title\<close> into a string may throw, and then
  \<open>message.substring\<close> throws when \<open>message\<close> is not a string.
\<close>

definition notify ::
  "config \<Rightarrow> world \<Rightarrow> request \<Rightarrow> server_state \<Rightarrow> (js_error + unit) \<times> server_state"
where
  "notify cfg w req st =
     (case req_json req of
        Inl e \<Rightarrow> (Inl e, st)
      | Inr data \<Rightarrow>
          if data = JNull \<or> data = JUndefined then (Inl (typeError_null w), st)
          else
            (let title = body_title data;
                 message = body_message data;
                 voiceEnabled = body_voiceEnabled data;
                 voiceId = body_voiceId data
             in if truthy voiceId \<and> \<not> is_string voiceId then
                  (Inl (Error (js ''Invalid voice_id'')), st)
                else if toString_throws title then (Inl (typeError_toString w), st)
                else if \<not> is_string message then (Inl (typeError_substring w), st)
                else sendNotification cfg w title message voiceEnabled
                       (if is_string voiceId then Some (the_string voiceId) else None) st))"

definition health_body :: "config \<Rightarrow> world \<Rightarrow> server_state \<Rightarrow> jsvalue" where
  "health_body cfg w st =
     JObj [(js ''status'', JStr (js ''healthy'')),
           (js ''port'', JNum (of_nat (PORT cfg))),
           (js ''tts_provider'', JStr (TTS_PROVIDER cfg)),
           (js ''providers'',
            JObj [(js ''elevenlabs'',
                   JObj [(js ''available'', JBool (truthy_key (ELEVENLABS_API_KEY cfg))),
                         (js ''failCount'', JNum (of_nat (elevenLabsFailCount st)))]),
                  (js ''piper'',
                   JObj [(js ''available'', JBool (piper_model_exists w)),
                         (js ''model'', JStr (PIPER_MODEL_PATH cfg))]),
                  (js ''macos'',
                   JObj [(js ''available'', JBool True),
                         (js ''voice'', JStr (MACOS_VOICE cfg))])]),
           (js ''default_voice_id'', JStr (DEFAULT_VOICE_ID cfg)),
           (js ''chime_enabled'', JBool (CHIME_ENABLED cfg))]"

definition banner :: jsstring where
  "banner = js ''PAI Voice Server - POST to /notify (Cascading TTS: ElevenLabs ''
            @ [0x2192] @ js '' Piper '' @ [0x2192] @ js '' macOS)''"

definition clientIp :: "request \<Rightarrow> jsstring" where
  "clientIp req =
     (case x_forwarded_for req of
        None \<Rightarrow> js ''localhost''
      | Some h \<Rightarrow> if h \<noteq> [] then h else js ''localhost'')"

definition fetch :: "config \<Rightarrow> world \<Rightarrow> request \<Rightarrow> server_state \<Rightarrow> response \<times> server_state" where
  "fetch cfg w req st =
     (if req_method req = js ''OPTIONS'' then
        (\<lparr>resp_status = 204, resp_headers = corsHeaders, resp_body = NoBody\<rparr>, st)
      else
        (case checkRateLimit (date_now w) (clientIp req) (requestCounts st) of
           (admitted, tbl) \<Rightarrow>
             (let st1 = st\<lparr>requestCounts := tbl\<rparr> in
              if \<not> admitted then
                (\<lparr>resp_status = 429, resp_headers = jsonHeaders,
                  resp_body = JsonBody (JObj [(js ''status'', JStr (js ''error'')),
                                              (js ''message'', JStr (js ''Rate limit exceeded''))])\<rparr>,
                 st1)
              else if req_pathname req = js ''/notify'' \<and> req_method req = js ''POST'' then
                (case notify cfg w req st1 of
                   (Inr _, st2) \<Rightarrow>
                     (\<lparr>resp_status = 200, resp_headers = jsonHeaders,
                       resp_body = JsonBody (JObj [(js ''status'', JStr (js ''success'')),
                                                   (js ''message'', JStr (js ''Notification sent''))])\<rparr>,
                      st2)
                 | (Inl e, st2) \<Rightarrow>
                     (\<lparr>resp_status = (if str_includes (err_message e) (js ''Invalid'') then 400 else 500),
                       resp_headers = jsonHeaders,
                       resp_body = JsonBody (JObj [(js ''status'', JStr (js ''error'')),
                                                   (js ''message'',
                                                    JStr (if err_message e \<noteq> [] then err_message e
                                                          else js ''Internal server error''))])\<rparr>,
                      st2))
              else if req_pathname req = js ''/health'' then
                (\<lparr>resp_status = 200, resp_headers = jsonHeaders,
                  resp_body = JsonBody (health_body cfg w st1)\<rparr>, st1)
              else
                (\<lparr>resp_status = 200, resp_headers = corsHeaders, resp_body = TextBody banner\<rparr>,
                 st1))))"

section \<open>Properties named in the specification\<close>

text \<open>
  A script-tag opener, as the first expression of the sanitizer reads it: a place where
  \<open><script\<close> stands, in any case.
\<close>

definition has_script_opener :: "jsstring \<Rightarrow> bool" where
  "has_script_opener s \<longleftrightarrow> list_ex (\<lambda>t. m_script t \<noteq> None) (suffixes s)"

text \<open>
  Content the sanitizer counts as unsafe: a place in the message where one of its seven
  expressions matches (a script-tag opener, \<open>../\<close>, a shell metacharacter, emphasis with two
  stars or one, a code span, a heading).
\<close>

definition no_unsafe_content :: "jsstring \<Rightarrow> bool" where
  "no_unsafe_content s \<longleftrightarrow>
     list_all (\<lambda>t. m_script t = None \<and> m_dotdot t = None \<and> m_meta t = None \<and>
                   m_wrapped 0x2A 2 t = None \<and> m_wrapped 0x2A 1 t = None \<and>
                   m_wrapped 0x60 1 t = None \<and> m_heading t = None) (suffixes s)"

text \<open>
  A bracketed tag agrees when the table maps its emoji to its label in lower case. A
  message contains an agreeing tag when one stands at some place in it. The leftmost tag
  of a message stands at the first place where the expression of \<open>extractEmotionalMarker\<close>
  matches; a message has no tag when the expression matches nowhere.
\<close>

definition agrees :: "emotion_match \<Rightarrow> bool" where
  "agrees em \<longleftrightarrow> map_of emojiToEmotion (em_emoji em) = Some (toLowerCase (em_label em))"

definition has_agreeing_tag :: "jsstring \<Rightarrow> bool" where
  "has_agreeing_tag s \<longleftrightarrow>
     list_ex (\<lambda>t. case m_emotion t of None \<Rightarrow> False | Some em \<Rightarrow> agrees em) (suffixes s)"

definition leftmost_tag :: "jsstring \<Rightarrow> nat \<Rightarrow> emotion_match \<Rightarrow> bool" where
  "leftmost_tag s i em \<longleftrightarrow>
     i \<le> length s \<and> m_emotion (drop i s) = Some em \<and>
     list_all (\<lambda>j. m_emotion (drop j s) = None) [0..<i]"

definition no_tag :: "jsstring \<Rightarrow> bool" where
  "no_tag s \<longleftrightarrow> list_all (\<lambda>t. m_emotion t = None) (suffixes s)"

text \<open>
  Two messages used below: one with a collision tag whose label is \<open>wrong\<close> followed by a
  party tag labelled \<open>celebration\<close>, and one with a sparkles tag labelled \<open>Success\<close>.
\<close>

definition two_tags :: jsstring where
  "two_tags = js ''['' @ [0xD83D, 0xDCA5] @ js '' wrong] ['' @ [0xD83C, 0xDF89]
              @ js '' celebration]''"

definition tagged :: jsstring where
  "tagged = js ''Deployed ['' @ [0x2728] @ js '' Success] to staging''"

text \<open>
  The number of requests of one caller the limiter admits, among requests (time, caller)
  checked one after the other.
\<close>

fun admitted :: "jsstring \<Rightarrow> (nat \<times> jsstring) list \<Rightarrow> (jsstring \<rightharpoonup> rate_record) \<Rightarrow> nat" where
  "admitted ip [] tbl = 0"
| "admitted ip ((t, i) # rest) tbl =
     (case checkRateLimit t i tbl of
        (ok, tbl') \<Rightarrow> (if ok \<and> i = ip then 1 else 0) + admitted ip rest tbl')"

text \<open>
  A configuration, an answer of the outside world, a request and two states of the
  server, for the examples below.
\<close>

definition config0 :: config where
  "config0 = \<lparr>PORT = 8888, ELEVENLABS_API_KEY = Some (js ''sk-test''),
               DEFAULT_VOICE_ID = js ''s3TPKV1kjDlVtZbl4Ksh'', CHIME_ENABLED = True,
               TTS_PROVIDER = js ''elevenlabs'',
               PIPER_MODEL_PATH = js ''/home/u/.claude/voice-server/piper-models/en_US-lessac-medium.onnx'',
               MACOS_VOICE = js ''Samantha''\<rparr>"

definition world0 :: world where
  "world0 = \<lparr>date_now = 30000, isoString = js ''2025-12-31T12:00:00.000Z'',
              elevenlabs_fetch = Inr \<lparr>status = 200, text_body = Inr [], arrayBuffer = Inr [0x49, 0x44, 0x33]\<rparr>,
              piper_model_exists = True, piper_run = Inr [0x52, 0x49], say_run = Inr [0x46, 0x4F],
              afplay_run = None,
              typeError_null = \<lparr>err_name = js ''TypeError'', err_message = js ''null is not an object''\<rparr>,
              typeError_toString = \<lparr>err_name = js ''TypeError'',
                                     err_message = js ''No default value''\<rparr>,
              typeError_substring = \<lparr>err_name = js ''TypeError'',
                                      err_message = js ''message.substring is not a function''\<rparr>\<rparr>"

definition post_notify :: "jsvalue \<Rightarrow> request" where
  "post_notify data = \<lparr>req_method = js ''POST'', req_pathname = js ''/notify'',
                        x_forwarded_for = None, req_json = Inr data\<rparr>"

definition state0 :: server_state where
  "state0 = \<lparr>requestCounts = Map.empty, elevenLabsFailCount = 0, errorLog = []\<rparr>"

definition state_full :: server_state where
  "state_full = state0\<lparr>requestCounts := [js ''localhost'' \<mapsto> \<lparr>count = 10, resetTime = 61000\<rparr>]\<rparr>"

text \<open>
  The handler is asynchronous: while one request waits for ElevenLabs, others run. The
  counter is read and written at three places, each of them a step that runs without
  interruption. \<open>Begin\<close>: a call of \<open>generateSpeech\<close> builds its list from the counter and,
  when ElevenLabs heads it, sends the request, which is then in flight. \<open>Settle\<close>: a
  request in flight settles and \<open>generateSpeechElevenLabs\<close> runs on, writing the counter
  as \<open>elevenlabs_settle\<close> says; when it throws, a catch is pending. \<open>Caught\<close>: the catch
  block of \<open>generateSpeech\<close> increments the counter. The steps of different calls come in
  any order; a step that is not due (nothing in flight, no catch pending) cannot happen.
\<close>

datatype step = Begin world | Settle "js_error + http_response" | Caught

record process =
  counter :: nat
  in_flight :: nat
  pending_catch :: nat

fun do_step :: "config \<Rightarrow> step \<Rightarrow> process \<Rightarrow> process option" where
  "do_step cfg (Begin w) p =
     Some (if elevenlabs \<in> set (providers cfg w (counter p))
           then p\<lparr>in_flight := in_flight p + 1\<rparr> else p)"
| "do_step cfg (Settle outcome) p =
     (if in_flight p = 0 then None
      else (case elevenlabs_settle outcome (counter p) of
              (result, fc) \<Rightarrow>
                Some (p\<lparr>counter := fc, in_flight := in_flight p - 1,
                         pending_catch := pending_catch p + (if isl result then 1 else 0)\<rparr>)))"
| "do_step cfg Caught p =
     (if pending_catch p = 0 then None
      else Some (p\<lparr>counter := counter p + 1, pending_catch := pending_catch p - 1\<rparr>))"

text \<open>The process after a sequence of steps, if they can happen in that order.\<close>

fun run :: "config \<Rightarrow> step list \<Rightarrow> process \<Rightarrow> process option" where
  "run cfg [] p = Some p"
| "run cfg (s # ss) p = (case do_step cfg s p of None \<Rightarrow> None | Some p' \<Rightarrow> run cfg ss p')"

text \<open>The lists of providers that the calls beginning in a sequence of steps build.\<close>

fun built :: "config \<Rightarrow> step list \<Rightarrow> process \<Rightarrow> TTSProvider list list" where
  "built cfg [] p = []"
| "built cfg (s # ss) p =
     (case do_step cfg s p of
        None \<Rightarrow> []
      | Some p' \<Rightarrow>
          (case s of Begin w \<Rightarrow> [providers cfg w (counter p)] | _ \<Rightarrow> []) @ built cfg ss p')"

text \<open>A step in which a request to ElevenLabs gets an OK response.\<close>

fun settles_ok :: "step \<Rightarrow> bool" where
  "settles_ok (Settle (Inr r)) = response_ok r"
| "settles_ok _ = False"

text \<open>
  A call of \<open>generateSpeech\<close> that nothing interrupts is its steps in a row: it begins, and
  when ElevenLabs heads the list the request settles and, after a throw, the catch runs.
  The counter the function returns is the counter of the process after these steps.
\<close>

definition call_steps :: "config \<Rightarrow> world \<Rightarrow> nat \<Rightarrow> step list" where
  "call_steps cfg w fc =
     Begin w #
     (if elevenlabs \<in> set (providers cfg w fc)
      then Settle (elevenlabs_fetch w) #
           (if isl (fst (elevenlabs_settle (elevenlabs_fetch w) fc)) then [Caught] else [])
      else [])"

text \<open>
  The quota or rate-limit signal of ElevenLabs: a response that is not OK whose status is
  429 or whose body, read as text, mentions \<open>quota\<close> or \<open>limit\<close>.
\<close>

definition quota_signal :: "http_response \<Rightarrow> bool" where
  "quota_signal r \<longleftrightarrow>
     \<not> response_ok r \<and>
     (case text_body r of
        Inl _ \<Rightarrow> False
      | Inr errorText \<Rightarrow>
          status r = 429 \<or> str_includes errorText (js ''quota'')
          \<or> str_includes errorText (js ''limit''))"

text \<open>
  For the examples: a world in which ElevenLabs answers 401 with a quota message, one in
  which it answers 429 with a body that cannot be read, a request with a message, a
  state whose error log holds an earlier entry, and a process with nothing going on.
\<close>

definition world_quota :: world where
  "world_quota = world0\<lparr>elevenlabs_fetch :=
      Inr \<lparr>status = 401, text_body = Inr (js ''quota_exceeded''), arrayBuffer = Inr []\<rparr>\<rparr>"

definition req_hi :: request where
  "req_hi = post_notify (JObj [(js ''message'', JStr (js ''Build done''))])"

definition world_429_unreadable :: world where
  "world_429_unreadable = world0\<lparr>elevenlabs_fetch :=
      Inr \<lparr>status = 429, text_body = Inl (Error (js ''socket closed'')), arrayBuffer = Inr []\<rparr>\<rparr>"

definition state_logged :: server_state where
  "state_logged = state0\<lparr>errorLog := js ''2025-12-30T08:00:00.000Z - TTS Error: earlier''
                                        @ [0x0A] @ js ''Message: earlier'' @ [0x0A, 0x0A]\<rparr>"

definition idle :: process where
  "idle = \<lparr>counter = 0, in_flight = 0, pending_catch = 0\<rparr>"

text \<open>
  A provider throws when its function returns an error. A parsed body passes validation
  when the handler gets as far as the speech: the body is not \<open>null\<close>, the voice, if
  given, is a string, and title and message are valid.
\<close>

fun provider_throws :: "config \<Rightarrow> world \<Rightarrow> nat \<Rightarrow> TTSProvider \<Rightarrow> bool" where
  "provider_throws cfg w fc elevenlabs = isl (fst (generateSpeechElevenLabs cfg w fc))"
| "provider_throws cfg w fc piper = isl (generateSpeechPiper cfg w)"
| "provider_throws cfg w fc macos = isl (generateSpeechMacOS w)"

definition passes_validation :: "jsvalue \<Rightarrow> bool" where
  "passes_validation data \<longleftrightarrow>
     data \<noteq> JNull \<and> data \<noteq> JUndefined \<and>
     (truthy (body_voiceId data) \<longrightarrow> is_string (body_voiceId data)) \<and>
     valid (validateInput (body_title data)) \<and> valid (validateInput (body_message data))"

text \<open>
  For the examples: a world in which every provider fails, the body of the response to a
  notification that was accepted, and an \<open>OPTIONS\<close> request.
\<close>

definition world_silent :: world where
  "world_silent = world0\<lparr>
      elevenlabs_fetch := Inr \<lparr>status = 500, text_body = Inr (js ''upstream error''),
                               arrayBuffer = Inr []\<rparr>,
      piper_run := Inl (Error (js ''Piper exited with code 1: '')),
      say_run := Inl (Error (js ''macOS say exited with code 1''))\<rparr>"

definition success_body :: body where
  "success_body = JsonBody (JObj [(js ''status'', JStr (js ''success'')),
                                  (js ''message'', JStr (js ''Notification sent''))])"

definition req_options :: request where
  "req_options = \<lparr>req_method = js ''OPTIONS'', req_pathname = js ''/notify'',
                   x_forwarded_for = Some (js ''10.0.0.7''), req_json = Inr JNull\<rparr>"

section \<open>The completion extractor\<close>

text \<open>
  Modelled from the spec: the transcript analyzer (\<open>hooks/stop-hook-voice.ts\<close>, with its
  function \<open>extractCompletion\<close>) is not among the sources; the changelog names it. What
  follows is section 4.1 of the specification. A content block of a transcript record is
  text, a tool invocation (the tool's name, the path of its target file and the
  description its caller gave, where present) or a tool result.
\<close>

datatype block = TextBlock jsstring | ToolUse jsstring "jsstring option" "jsstring option" | ToolResult

text \<open>Modelled from the spec: the type of a record is \<open>user\<close>, \<open>assistant\<close> or other.\<close>

datatype event_type = User | Assistant | Other

text \<open>
  Modelled from the spec: a record of the transcript has a type and a content, which is
  text or a sequence of blocks. A transcript is its lines in order, \<open>None\<close> for a line that
  does not parse; such lines are skipped.
\<close>

record event =
  ev_type :: event_type
  ev_content :: "jsstring + block list"

text \<open>
  Modelled from the spec: a true turn boundary is a \<open>user\<close> record whose content is not
  wholly composed of tool-result blocks.
\<close>

definition true_user_turn :: "event option \<Rightarrow> bool" where
  "true_user_turn l \<longleftrightarrow>
     (case l of
        None \<Rightarrow> False
      | Some ev \<Rightarrow>
          ev_type ev = User \<and>
          (case ev_content ev of
             Inl _ \<Rightarrow> True
           | Inr bs \<Rightarrow> \<not> list_all (\<lambda>b. b = ToolResult) bs))"

text \<open>
  Modelled from the spec: the backward scan for the turn window. It takes the lines still
  to scan, last line first, and the lines already passed; it stops at the first true
  turn boundary, which opens the window. With no boundary the window is the transcript.
\<close>

fun scan_back :: "event option list \<Rightarrow> event option list \<Rightarrow> event option list" where
  "scan_back [] acc = acc"
| "scan_back (l # ls) acc = (if true_user_turn l then l # acc else scan_back ls (l # acc))"

text \<open>Modelled from the spec: the turn window of a transcript.\<close>

definition turn_window :: "event option list \<Rightarrow> event option list" where
  "turn_window t = scan_back (rev t) []"

text \<open>Modelled from the spec: the texts of one record, in order.\<close>

definition event_texts :: "event \<Rightarrow> jsstring list" where
  "event_texts ev =
     (case ev_content ev of
        Inl s \<Rightarrow> [s]
      | Inr bs \<Rightarrow> concat (map (\<lambda>b. case b of TextBlock s \<Rightarrow> [s] | _ \<Rightarrow> []) bs))"

text \<open>
  Modelled from the spec: the last non-empty assistant text of the window; a later one
  overwrites an earlier one.
\<close>

definition last_assistant_text :: "event option list \<Rightarrow> jsstring" where
  "last_assistant_text win =
     foldl (\<lambda>cur l. case l of
                       None \<Rightarrow> cur
                     | Some ev \<Rightarrow>
                         if ev_type ev = Assistant
                         then foldl (\<lambda>c s. if s \<noteq> [] then s else c) cur (event_texts ev)
                         else cur)
       [] win"

text \<open>Modelled from the spec: the name of a file, the part of its path after the last slash.\<close>

definition basename :: "jsstring \<Rightarrow> jsstring" where
  "basename p = rev (takeWhile (\<lambda>c. c \<noteq> 0x2F) (rev p))"

text \<open>
  Modelled from the spec: the table from tool invocations to descriptions, under the tool
  names of the specification; \<open>None\<close> where the table has no description.
\<close>

definition describe_tool :: "block \<Rightarrow> jsstring option" where
  "describe_tool b =
     (case b of
        ToolUse name path desc \<Rightarrow>
          if name = js ''edit-file'' then map_option (\<lambda>p. js ''Modified '' @ basename p) path
          else if name = js ''write-file'' then map_option (\<lambda>p. js ''Created '' @ basename p) path
          else if name = js ''run-command'' then desc
          else if name = js ''read-file'' then map_option (\<lambda>p. js ''Read '' @ basename p) path
          else if name = js ''file-glob'' \<or> name = js ''text-search'' then Some (js ''Searched codebase'')
          else if name = js ''spawn-task'' then
            Some (case desc of Some d \<Rightarrow> d | None \<Rightarrow> js ''Ran subagent task'')
          else if name = js ''web-fetch'' \<or> name = js ''web-search'' then Some (js ''Searched the web'')
          else None
      | _ \<Rightarrow> None)"

text \<open>Modelled from the spec: the tool-call descriptions of the window, in order.\<close>

definition tool_descriptions :: "event option list \<Rightarrow> jsstring list" where
  "tool_descriptions win =
     concat (map (\<lambda>l. case l of
                         None \<Rightarrow> []
                       | Some ev \<Rightarrow>
                           (case ev_content ev of
                              Inl _ \<Rightarrow> []
                            | Inr bs \<Rightarrow> List.map_filter describe_tool bs)) win)"

text \<open>
  Modelled from the spec: the file modifications among the descriptions, those of the
  edit and write tools.
\<close>

definition modifications :: "jsstring list \<Rightarrow> jsstring list" where
  "modifications ds = filter (\<lambda>d. prefix (js ''Modified '') d \<or> prefix (js ''Created '') d) ds"

text \<open>Modelled from the spec: a text cut at a separator, empty pieces kept.\<close>

fun split_on :: "(jschar \<Rightarrow> bool) \<Rightarrow> jsstring \<Rightarrow> jsstring list" where
  "split_on P [] = [[]]"
| "split_on P (c # cs) =
     (if P c then [] # split_on P cs
      else (case split_on P cs of [] \<Rightarrow> [[c]] | x # xs \<Rightarrow> (c # x) # xs))"

text \<open>Modelled from the spec: the lines of a text.\<close>

definition lines_of :: "jsstring \<Rightarrow> jsstring list" where
  "lines_of s = split_on (\<lambda>c. c = 0x0A) s"

text \<open>Modelled from the spec: the whitespace-delimited words of a text.\<close>

definition words_of :: "jsstring \<Rightarrow> jsstring list" where
  "words_of s = filter (\<lambda>w. w \<noteq> []) (split_on is_space s)"

text \<open>Modelled from the spec: words put together again, one space between two.\<close>

fun join_words :: "jsstring list \<Rightarrow> jsstring" where
  "join_words [] = []"
| "join_words [w] = w"
| "join_words (w # ws) = w @ [0x20] @ join_words ws"

text \<open>Modelled from the spec: truncation to the first ten words, with no ellipsis.\<close>

definition truncate_words :: "jsstring \<Rightarrow> jsstring" where
  "truncate_words s = join_words (take 10 (words_of s))"

text \<open>Modelled from the spec: a text without a prefix it may have.\<close>

definition without_prefix :: "jsstring \<Rightarrow> jsstring \<Rightarrow> jsstring" where
  "without_prefix p s = (if prefix p s then drop (length p) s else s)"

text \<open>
  Modelled from the spec: the explicit marker. A line is a marker line when, after white
  space, an optional dart emoji and optional bold markup, it has the label \<open>COMPLETED:\<close>
  or \<open>Done:\<close>; the result is the rest of the line behind the label and its closing bold
  markup.
\<close>

definition marker_rest :: "jsstring \<Rightarrow> jsstring option" where
  "marker_rest line =
     (let s0 = dropWhile is_space line;
          s1 = dropWhile is_space (without_prefix [0xD83C, 0xDFAF] s0);
          s2 = without_prefix (js ''**'') s1
      in if prefix (js ''COMPLETED:'') s2
         then Some (without_prefix (js ''**'') (drop (length (js ''COMPLETED:'')) s2))
         else if prefix (js ''Done:'') s2
         then Some (without_prefix (js ''**'') (drop (length (js ''Done:'')) s2))
         else None)"

text \<open>
  Modelled from the spec: what the specification names without fixing it. The form of an
  agent tag, the rules 2, 3, 5 and 6 of the cascade (summary heading, action verb,
  question and answer, first meaningful sentence) with their word lists, the wording of
  the tool-call summary of rule 4 and of the description rebuilt from the file
  modifications, and the cleaning for speech are parameters of the model; a rule yields
  the empty text when it does not match.
\<close>

record open_parts =
  strip_agent_tag :: "jsstring \<Rightarrow> jsstring"
  summary_rule :: "jsstring \<Rightarrow> jsstring"
  verb_rule :: "jsstring \<Rightarrow> jsstring"
  tool_rule :: "jsstring list \<Rightarrow> jsstring"
  question_rule :: "jsstring \<Rightarrow> jsstring list \<Rightarrow> jsstring"
  sentence_rule :: "jsstring \<Rightarrow> jsstring"
  rebuild :: "jsstring list \<Rightarrow> jsstring"
  speech_clean :: "jsstring \<Rightarrow> jsstring"

text \<open>
  Modelled from the spec: the text a line gives as a marker: its trailing text, trimmed
  and without a leading agent tag; empty for a line that is no marker line.
\<close>

definition marker_text :: "open_parts \<Rightarrow> jsstring \<Rightarrow> jsstring" where
  "marker_text P line =
     (case marker_rest line of None \<Rightarrow> [] | Some r \<Rightarrow> trim (strip_agent_tag P (trim r)))"

text \<open>
  Modelled from the spec: rule 1. A rule wins with a non-empty match, so the rule gives
  the text of the first line that gives a non-empty text as a marker, and the empty text
  when no line does.
\<close>

definition marker_rule :: "open_parts \<Rightarrow> jsstring \<Rightarrow> jsstring" where
  "marker_rule P txt =
     (case find (\<lambda>l. marker_text P l \<noteq> []) (lines_of txt) of
        None \<Rightarrow> []
      | Some l \<Rightarrow> marker_text P l)"

text \<open>Modelled from the spec: the cascade; the first rule with a non-empty result wins.\<close>

definition cascade :: "open_parts \<Rightarrow> jsstring \<Rightarrow> jsstring list \<Rightarrow> jsstring" where
  "cascade P txt tools =
     (if marker_rule P txt \<noteq> [] then marker_rule P txt
      else if summary_rule P txt \<noteq> [] then summary_rule P txt
      else if verb_rule P txt \<noteq> [] then verb_rule P txt
      else if tool_rule P tools \<noteq> [] then tool_rule P tools
      else if question_rule P txt tools \<noteq> [] then question_rule P txt tools
      else sentence_rule P txt)"

text \<open>
  Modelled from the spec: the override after the cascade. With file modifications and a
  result that is empty or shorter than 10 characters, the description is rebuilt from the
  modifications.
\<close>

definition post_cascade :: "open_parts \<Rightarrow> jsstring list \<Rightarrow> jsstring \<Rightarrow> jsstring" where
  "post_cascade P tools d =
     (if modifications tools \<noteq> [] \<and> (d = [] \<or> length d < 10)
      then rebuild P (modifications tools) else d)"

text \<open>
  Modelled from the spec: the description the extractor gives for a transcript: the
  cascade on the last assistant text of the turn window, the override, the cleaning for
  speech, the truncation to ten words.
\<close>

definition extract_description :: "open_parts \<Rightarrow> event option list \<Rightarrow> jsstring" where
  "extract_description P t =
     (let win = turn_window t;
          txt = last_assistant_text win;
          tools = tool_descriptions win
      in truncate_words (speech_clean P (post_cascade P tools (cascade P txt tools))))"









section \<open>The sanitizer removes what it is meant to remove\<close>

lemma replace_g_subset:
  "(\<And>t n rep. m t = Some (n, rep) \<Longrightarrow> set rep \<subseteq> set t) \<Longrightarrow> set (replace_g m s) \<subseteq> set s"
proof (induction m s rule: replace_g.induct)
  case (1 m)
  then show ?case by simp
next
  case (2 m c cs)
  note hyp = "2.prems"
  show ?case
  proof (cases "m (c # cs)")
    case None
    have "set (replace_g m cs) \<subseteq> set cs" using "2.IH"(1)[OF None] hyp by blast
    with None show ?thesis by auto
  next
    case (Some p)
    obtain n rep where p: "p = (n, rep)" by (cases p)
    have rep: "set rep \<subseteq> set (c # cs)" using hyp[of "c # cs" n rep] Some p by simp
    show ?thesis
    proof (cases "n = 0")
      case True
      have "set (replace_g m cs) \<subseteq> set cs"
        using "2.IH"(2)[OF Some p[symmetric] True] hyp by blast
      with Some p rep True show ?thesis by auto
    next
      case False
      have "set (replace_g m (drop (n - 1) cs)) \<subseteq> set (drop (n - 1) cs)"
        using "2.IH"(3)[OF Some p[symmetric] False] hyp by blast
      also have "\<dots> \<subseteq> set cs" by (rule set_drop_subset)
      finally show ?thesis using Some p rep False by auto
    qed
  qed
qed

lemma replace_g_meta: "replace_g m_meta s = filter (\<lambda>c. \<not> is_shell_meta c) s"
  by (induction s) (simp_all add: m_meta_def)

lemma m_wrapped_subset: "m_wrapped d k t = Some (n, rep) \<Longrightarrow> set rep \<subseteq> set t"
  by (auto simp: m_wrapped_def Let_def split: if_splits dest!: set_takeWhileD in_set_dropD)

lemma m_heading_rep: "m_heading t = Some (n, rep) \<Longrightarrow> rep = []"
  by (auto simp: m_heading_def Let_def split: if_splits)

lemma set_trim: "set (trim s) \<subseteq> set s"
  unfolding trim_def by (metis set_dropWhileD set_rev subsetI)

lemma lower_ascii_less_than: "lower_ascii c = 0x3C \<Longrightarrow> c = 0x3C"
  unfolding lower_ascii_def by (auto split: if_splits simp: unat_arith_simps)

lemma m_script_head: "m_script t \<noteq> None \<Longrightarrow> 0x3C \<in> set t"
proof -
  assume "m_script t \<noteq> None"
  then have len: "length t \<ge> 7" and all: "list_all2 eq_ci (take 7 t) (js ''<script'')"
    by (auto simp: m_script_def split: if_splits)
  from len obtain c cs where t: "t = c # cs" by (cases t) auto
  with all have "eq_ci c 0x3C" by (simp add: js_def)
  then have "c = 0x3C" using lower_ascii_less_than[of c] by (simp add: eq_ci_def lower_ascii_def)
  with t show ?thesis by simp
qed

lemma no_less_than_no_script: "0x3C \<notin> set s \<Longrightarrow> \<not> has_script_opener s"
  unfolding has_script_opener_def list_ex_iff
  using m_script_head set_mono_suffix by (fastforce simp: in_set_suffixes)

lemma sanitize_no_shell_meta: "set (sanitizeForSpeech s) \<subseteq> {c. \<not> is_shell_meta c}"
proof -
  let ?a = "replace_g m_meta (replace_g m_dotdot (replace_g m_script s))"
  have a: "set ?a \<subseteq> {c. \<not> is_shell_meta c}" by (auto simp: replace_g_meta)
  have b: "set (replace_g (m_wrapped d k) x) \<subseteq> set x" for d k x
    by (rule replace_g_subset) (rule m_wrapped_subset)
  have c: "set (replace_g m_heading x) \<subseteq> set x" for x
    by (rule replace_g_subset) (auto dest: m_heading_rep)
  have "set (sanitizeForSpeech s) \<subseteq> set ?a"
    unfolding sanitizeForSpeech_def substring0_def
    by (meson b c set_trim set_take_subset subset_trans)
  with a show ?thesis by blast
qed

text \<open>
  Claim C8. \<open>sanitizeForSpeech\<close> is a function of strings with no failing branch, so it
  does not throw. On a message that contains \<open><script>alert(1)</script>\<close> and
  \<open>$(rm -rf /)\<close> its result has no place where \<open><script\<close> stands (in any case) and no
  dollar sign. (The hypotheses are those of the claim; the result holds for every
  message, since the third expression removes every \<open><\<close> and every \<open>$\<close> and no later
  step brings one back.)
\<close>

theorem sanitizeForSpeech_strips_script_and_dollar:
  "str_includes m (js ''<script>alert(1)</script>'') \<Longrightarrow> str_includes m (js ''$(rm -rf /)'') \<Longrightarrow>
   \<not> has_script_opener (sanitizeForSpeech m) \<and> 0x24 \<notin> set (sanitizeForSpeech m)"
  using sanitize_no_shell_meta[of m] no_less_than_no_script[of "sanitizeForSpeech m"]
  by (auto simp: is_shell_meta_def)

theorem sanitizeForSpeech_strips_script_and_dollar_witness:
  "str_includes (js ''<script>alert(1)</script> $(rm -rf /)'') (js ''<script>alert(1)</script>'') \<and>
   str_includes (js ''<script>alert(1)</script> $(rm -rf /)'') (js ''$(rm -rf /)'') \<and>
   sanitizeForSpeech (js ''<script>alert(1)</script> $(rm -rf /)'') = js ''alert(1)/script (rm -rf /)'' \<and>
   \<not> has_script_opener (sanitizeForSpeech (js ''<script>alert(1)</script> $(rm -rf /)'')) \<and>
   0x24 \<notin> set (sanitizeForSpeech (js ''<script>alert(1)</script> $(rm -rf /)''))"
proof -
  let ?m = "js ''<script>alert(1)</script> $(rm -rf /)''"
  have h1: "str_includes ?m (js ''<script>alert(1)</script>'')" by code_simp
  have h2: "str_includes ?m (js ''$(rm -rf /)'')" by code_simp
  have h3: "sanitizeForSpeech ?m = js ''alert(1)/script (rm -rf /)''" by code_simp
  from sanitizeForSpeech_strips_script_and_dollar[OF h1 h2] h1 h2 h3 show ?thesis by blast
qed

section \<open>Validation\<close>

lemma sanitize_Nil: "sanitizeForSpeech [] = []"
  by (simp add: sanitizeForSpeech_def substring0_def trim_def)

lemma sanitize_length: "length (sanitizeForSpeech s) \<le> 500"
  by (simp add: sanitizeForSpeech_def substring0_def)

text \<open>
  Claim C4. \<open>validateInput\<close> rejects, with an error message and no sanitized text, every
  value that is not a string, every string of more than 500 code units, and every string
  whose sanitized form is empty; every other string is valid and carries its sanitized
  form, of at most 500 code units.
\<close>

theorem validateInput_cases:
  "(\<not> is_string v \<longrightarrow> \<not> valid (validateInput v) \<and> error (validateInput v) \<noteq> None
        \<and> sanitized (validateInput v) = None) \<and>
   (length s1 > 500 \<longrightarrow> \<not> valid (validateInput (JStr s1))
        \<and> error (validateInput (JStr s1)) \<noteq> None \<and> sanitized (validateInput (JStr s1)) = None) \<and>
   (sanitizeForSpeech s2 = [] \<longrightarrow> \<not> valid (validateInput (JStr s2))
        \<and> error (validateInput (JStr s2)) \<noteq> None \<and> sanitized (validateInput (JStr s2)) = None) \<and>
   (length s3 \<le> 500 \<and> sanitizeForSpeech s3 \<noteq> [] \<longrightarrow>
        validateInput (JStr s3)
          = \<lparr>valid = True, error = None, sanitized = Some (sanitizeForSpeech s3)\<rparr>
        \<and> length (sanitizeForSpeech s3) \<le> 500)"
proof (intro conjI impI)
  assume "length s3 \<le> 500 \<and> sanitizeForSpeech s3 \<noteq> []"
  moreover from this have "s3 \<noteq> []" using sanitize_Nil by auto
  ultimately show "validateInput (JStr s3)
      = \<lparr>valid = True, error = None, sanitized = Some (sanitizeForSpeech s3)\<rparr>"
    by (simp add: validateInput_def Let_def)
qed (auto simp: validateInput_def Let_def sanitize_length)

theorem validateInput_cases_witness:
  "\<not> is_string (JNum 5) \<and> \<not> valid (validateInput (JNum 5)) \<and>
   length (replicate 501 (0x61 :: jschar)) > 500 \<and>
   \<not> valid (validateInput (JStr (replicate 501 0x61))) \<and>
   sanitizeForSpeech (js '';; $'') = [] \<and> \<not> valid (validateInput (JStr (js '';; $''))) \<and>
   length (js '' hello **world** '') \<le> 500 \<and> sanitizeForSpeech (js '' hello **world** '') \<noteq> [] \<and>
   validateInput (JStr (js '' hello **world** ''))
     = \<lparr>valid = True, error = None, sanitized = Some (js ''hello world'')\<rparr>"
proof -
  have h1: "\<not> is_string (JNum 5)" by simp
  have h2: "length (replicate 501 (0x61 :: jschar)) > 500" by simp
  have h3: "sanitizeForSpeech (js '';; $'') = []" by code_simp
  have h4: "sanitizeForSpeech (js '' hello **world** '') = js ''hello world''" by code_simp
  have h5: "length (js '' hello **world** '') \<le> 500" by (simp add: js_def)
  have h6: "js ''hello world'' \<noteq> []" by (simp add: js_def)
  from validateInput_cases[of "JNum 5" "replicate 501 0x61" "js '';; $''" "js '' hello **world** ''"]
    h1 h2 h3 h4 h5 h6
  show ?thesis by simp
qed

section \<open>A safe message comes back trimmed\<close>

lemma replace_g_no_match: "(\<And>t. suffix t s \<Longrightarrow> m t = None) \<Longrightarrow> replace_g m s = s"
proof (induction s)
  case Nil
  then show ?case by simp
next
  case (Cons c cs)
  have "m (c # cs) = None" using Cons.prems by simp
  moreover have "replace_g m cs = cs"
    using Cons.IH Cons.prems by (simp add: suffix_ConsI)
  ultimately show ?case by simp
qed

lemma length_trim: "length (trim s) \<le> length s"
  unfolding trim_def
  by (metis length_dropWhile_le length_rev order_trans)

text \<open>
  Claim C7, as amended. A message with no unsafe content and at most 500 code units, whose
  trimmed form is not empty, is valid, and its sanitized form is the message trimmed. (A
  message that is empty or all white space has no unsafe content either, and is rejected:
  the counterexample below.)
\<close>

theorem validateInput_safe_message:
  assumes "no_unsafe_content m" and "length m \<le> 500" and "trim m \<noteq> []"
  shows "validateInput (JStr m) = \<lparr>valid = True, error = None, sanitized = Some (trim m)\<rparr>"
proof -
  have none: "\<And>t. suffix t m \<Longrightarrow> m_script t = None \<and> m_dotdot t = None \<and> m_meta t = None \<and>
                   m_wrapped 0x2A 2 t = None \<and> m_wrapped 0x2A 1 t = None \<and>
                   m_wrapped 0x60 1 t = None \<and> m_heading t = None"
    using assms(1) unfolding no_unsafe_content_def list_all_iff by (simp add: in_set_suffixes)
  have r: "replace_g m_script m = m" "replace_g m_dotdot m = m" "replace_g m_meta m = m"
    "replace_g (m_wrapped 0x2A 2) m = m" "replace_g (m_wrapped 0x2A 1) m = m"
    "replace_g (m_wrapped 0x60 1) m = m" "replace_g m_heading m = m"
    by (rule replace_g_no_match, rule none[THEN conjunct1], assumption)
       (rule replace_g_no_match, use none in blast)+
  have "sanitizeForSpeech m = substring0 500 (trim m)"
    by (simp only: sanitizeForSpeech_def r)
  also have "\<dots> = trim m" using length_trim[of m] assms(2) by (simp add: substring0_def)
  finally have s: "sanitizeForSpeech m = trim m" .
  have "m \<noteq> []" using assms(3) by (auto simp: trim_def)
  with s assms show ?thesis by (simp add: validateInput_def Let_def)
qed

theorem validateInput_safe_message_witness:
  "no_unsafe_content (js ''  Build finished: 3 tests passed  '') \<and>
   validateInput (JStr (js ''  Build finished: 3 tests passed  ''))
     = \<lparr>valid = True, error = None, sanitized = Some (js ''Build finished: 3 tests passed'')\<rparr>"
proof -
  let ?m = "js ''  Build finished: 3 tests passed  ''"
  have h1: "no_unsafe_content ?m" by code_simp
  have h2: "length ?m \<le> 500" by (simp add: js_def)
  have h3: "trim ?m = js ''Build finished: 3 tests passed''" by code_simp
  have h4: "js ''Build finished: 3 tests passed'' \<noteq> []" by (simp add: js_def)
  from validateInput_safe_message[OF h1 h2] h3 h4 h1 show ?thesis by simp
qed

theorem validateInput_blank_message_rejected:
  "no_unsafe_content (js ''   '') \<and> length (js ''   '') \<le> 500 \<and>
   validateInput (JStr (js ''   ''))
     = \<lparr>valid = False, error = Some (js ''Message contains no valid content after sanitization''),
        sanitized = None\<rparr>"
  by code_simp


section \<open>The emotional marker is the leftmost tag\<close>

lemma re_search_Some:
  "re_search m s = Some (i, r) \<longleftrightarrow>
     i \<le> length s \<and> m (drop i s) = Some r \<and> (\<forall>j<i. m (drop j s) = None)"
proof (induction s arbitrary: i)
  case Nil
  then show ?case by auto
next
  case (Cons c cs)
  show ?case
  proof (cases "m (c # cs)")
    case None
    show ?thesis
    proof (cases i)
      case 0
      with None show ?thesis by auto
    next
      case (Suc k)
      have "(\<forall>j<Suc k. m (drop j (c # cs)) = None) \<longleftrightarrow> (\<forall>j<k. m (drop j cs) = None)"
        using None by (auto simp: less_Suc_eq_0_disj)
      with None Suc Cons.IH[of k] show ?thesis by auto
    qed
  next
    case (Some a)
    then show ?thesis by (cases i) auto
  qed
qed

lemma re_search_None:
  "re_search m s = None \<longleftrightarrow> (\<forall>t. suffix t s \<longrightarrow> m t = None)"
proof (induction s)
  case Nil
  then show ?case by auto
next
  case (Cons c cs)
  then show ?case by (auto simp: suffix_Cons split: option.splits)
qed

lemma remove_first_at:
  "i \<le> length s \<Longrightarrow> pat \<noteq> [] \<Longrightarrow> prefix pat (drop i s) \<Longrightarrow> (\<forall>j<i. \<not> prefix pat (drop j s)) \<Longrightarrow>
   remove_first pat s = take i s @ drop (i + length pat) s"
proof (induction s arbitrary: i)
  case Nil
  then show ?case by simp
next
  case (Cons c cs)
  show ?case
  proof (cases i)
    case 0
    with Cons.prems show ?thesis by simp
  next
    case (Suc k)
    have np: "\<not> prefix pat (c # cs)" using Cons.prems(4) Suc by (metis drop0 zero_less_Suc)
    have "\<forall>j<k. \<not> prefix pat (drop j cs)" using Cons.prems(4) Suc by (metis Suc_less_eq drop_Suc_Cons)
    then have "remove_first pat cs = take k cs @ drop (k + length pat) cs"
      using Cons.IH[of k] Cons.prems Suc by simp
    with np Suc show ?thesis by simp
  qed
qed

lemma word_not_space: "is_word c \<Longrightarrow> \<not> is_space c"
  unfolding is_word_def is_space_def by (auto simp: unat_arith_simps)

lemma bracket_not_word: "\<not> is_word 0x5D"
  by (simp add: is_word_def)


lemma emoji_short: "e \<in> set (map fst emojiToEmotion) \<Longrightarrow> length e \<le> 2"
  by (auto simp: emojiToEmotion_def)

lemma m_emotion_shape:
  assumes "m_emotion t = Some em"
  shows "\<exists>ws rest. t = 0x5B # em_emoji em @ ws @ em_label em @ 0x5D # rest \<and>
           ws \<noteq> [] \<and> em_label em \<noteq> [] \<and> (\<forall>c\<in>set ws. is_space c) \<and>
           (\<forall>c\<in>set (em_label em). is_word c) \<and>
           find (\<lambda>e. prefix e (tl t)) (map fst emojiToEmotion) = Some (em_emoji em) \<and>
           em_length em = 1 + length (em_emoji em) + length ws + length (em_label em) + 1"
proof -
  from assms obtain c r where t: "t = c # r" by (cases t) (auto simp: m_emotion_def)
  from assms t have c: "c = 0x5B" by (auto simp: m_emotion_def split: if_splits)
  from assms t c obtain e where e: "find (\<lambda>e. prefix e r) (map fst emojiToEmotion) = Some e"
    by (auto simp: m_emotion_def split: option.splits)
  define r1 where "r1 = drop (length e) r"
  define ws where "ws = takeWhile is_space r1"
  define r2 where "r2 = dropWhile is_space r1"
  define w where "w = takeWhile is_word r2"
  define r3 where "r3 = dropWhile is_word r2"
  from assms t c e have ok: "ws \<noteq> []" "w \<noteq> []" "prefix [0x5D] r3"
    and em: "em = \<lparr>em_emoji = e, em_label = w,
                   em_length = 1 + length e + length ws + length w + 1\<rparr>"
    by (auto simp: m_emotion_def Let_def r1_def ws_def r2_def w_def r3_def split: if_splits)
  from e have "prefix e r" by (auto simp: find_Some_iff)
  then have r: "r = e @ r1" by (auto simp: r1_def prefix_def)
  have r1: "r1 = ws @ r2" by (simp add: ws_def r2_def)
  have r2: "r2 = w @ r3" by (simp add: w_def r3_def)
  from ok(3) obtain rest where r3: "r3 = 0x5D # rest" by (auto simp: prefix_def)
  have "t = 0x5B # e @ ws @ w @ 0x5D # rest" using t c r r1 r2 r3 by simp
  moreover have "\<forall>c\<in>set ws. is_space c" by (auto simp: ws_def dest: set_takeWhileD)
  moreover have "\<forall>c\<in>set w. is_word c" by (auto simp: w_def dest: set_takeWhileD)
  ultimately show ?thesis using ok em e t by auto
qed

lemma m_emotion_prefix:
  assumes "m_emotion t = Some em" and "prefix (take (em_length em) t) t'"
  shows "m_emotion t' = Some em"
proof -
  from m_emotion_shape[OF assms(1)] obtain ws rest where
    t: "t = 0x5B # em_emoji em @ ws @ em_label em @ 0x5D # rest"
    and ws: "ws \<noteq> []" "\<forall>c\<in>set ws. is_space c"
    and w: "em_label em \<noteq> []" "\<forall>c\<in>set (em_label em). is_word c"
    and f: "find (\<lambda>e. prefix e (tl t)) (map fst emojiToEmotion) = Some (em_emoji em)"
    and n: "em_length em = 1 + length (em_emoji em) + length ws + length (em_label em) + 1"
    by blast
  let ?e = "em_emoji em" and ?w = "em_label em"
  have "take (em_length em) t = 0x5B # ?e @ ws @ ?w @ [0x5D]"
    by (subst t) (simp add: n)
  with assms(2) obtain rest' where t': "t' = 0x5B # ?e @ ws @ ?w @ 0x5D # rest'"
    by (auto simp: prefix_def)
  have two: "take 2 (tl t) = take 2 (tl t')"
  proof -
    let ?p = "?e @ ws @ ?w"
    have len: "length ?p \<ge> 2" using ws(1) w(1)
      by (cases ws; cases ?w) auto
    have "tl t = ?p @ 0x5D # rest" "tl t' = ?p @ 0x5D # rest'" using t t' by simp_all
    then have "take 2 (tl t) = take 2 ?p" "take 2 (tl t') = take 2 ?p"
      using len by (simp_all del: append_assoc)
    then show ?thesis by simp
  qed
  have "prefix e (tl t) \<longleftrightarrow> prefix e (tl t')" if "e \<in> set (map fst emojiToEmotion)" for e
  proof -
    have "length e \<le> 2" using that by (rule emoji_short)
    then have "prefix e x \<longleftrightarrow> prefix e (take 2 x)" for x :: jsstring
    proof -
      assume le: "length e \<le> 2"
      show ?thesis
      proof
        assume "prefix e x"
        then obtain z where "x = e @ z" by (auto simp: prefix_def)
        with le show "prefix e (take 2 x)" by simp
      next
        assume "prefix e (take 2 x)"
        then show "prefix e x" using take_is_prefix prefix_order.order_trans by blast
      qed
    qed
    with two show ?thesis by metis
  qed
  then have f': "find (\<lambda>e. prefix e (tl t')) (map fst emojiToEmotion) = Some ?e"
    using f by (metis (mono_tags, lifting) find_cong)
  obtain b w' where wb: "?w = b # w'" using w(1) by (cases ?w) auto
  have nb: "\<not> is_space b" using w(2) wb word_not_space by auto
  have tw1: "takeWhile is_space (ws @ ?w @ 0x5D # rest') = ws"
    using ws(2) nb wb by (simp add: takeWhile_append2)
  have dw1: "dropWhile is_space (ws @ ?w @ 0x5D # rest') = ?w @ 0x5D # rest'"
    using ws(2) nb wb by (simp add: dropWhile_append2)
  have tw2: "takeWhile is_word (?w @ 0x5D # rest') = ?w"
    using w(2) bracket_not_word by (simp add: takeWhile_append2)
  have dw2: "dropWhile is_word (?w @ 0x5D # rest') = 0x5D # rest'"
    using w(2) bracket_not_word by (simp add: dropWhile_append2)
  define r' where "r' = ?e @ ws @ ?w @ 0x5D # rest'"
  have t'': "t' = 0x5B # r'" using t' by (simp add: r'_def)
  have f'': "find (\<lambda>e. prefix e r') (map fst emojiToEmotion) = Some ?e"
    using f' t'' by simp
  have d: "drop (length ?e) r' = ws @ ?w @ 0x5D # rest'" by (simp add: r'_def)
  have "m_emotion t' = Some \<lparr>em_emoji = ?e, em_label = ?w, em_length = em_length em\<rparr>"
    unfolding m_emotion_def t''
    by (simp add: f'' d tw1 dw1 tw2 dw2 Let_def ws(1) w(1) n)
  then show ?thesis by simp
qed


lemma m_emotion_length:
  "m_emotion t = Some em \<Longrightarrow> 0 < em_length em \<and> em_length em \<le> length t"
  using m_emotion_shape[of t em] by auto

lemma leftmost_tag_search: "leftmost_tag m i em \<longleftrightarrow> re_search m_emotion m = Some (i, em)"
  by (auto simp: leftmost_tag_def re_search_Some list_all_iff)

lemma no_tag_search: "no_tag m \<longleftrightarrow> re_search m_emotion m = None"
  by (auto simp: no_tag_def re_search_None list_all_iff in_set_suffixes)

lemma remove_leftmost_tag:
  assumes "leftmost_tag m i em"
  shows "remove_first (take (em_length em) (drop i m)) m = take i m @ drop (i + em_length em) m"
proof -
  let ?pat = "take (em_length em) (drop i m)"
  from assms have i: "i \<le> length m" and at: "m_emotion (drop i m) = Some em"
    and before: "\<forall>j<i. m_emotion (drop j m) = None"
    by (auto simp: leftmost_tag_def list_all_iff)
  from m_emotion_length[OF at] have len: "length ?pat = em_length em" and ne: "?pat \<noteq> []"
    by auto
  have "\<not> prefix ?pat (drop j m)" if "j < i" for j
    using m_emotion_prefix[OF at, of "drop j m"] before that by auto
  then have "remove_first ?pat m = take i m @ drop (i + length ?pat) m"
    using remove_first_at[OF i ne] take_is_prefix by blast
  with len show ?thesis by simp
qed

text \<open>
  Claim C6, as amended. \<open>extractEmotionalMarker\<close> looks at the leftmost tag only. When
  that tag agrees, the result is the message with that tag cut out, trimmed, and the
  emotion of the table; when it does not agree, or the message has no tag, the message
  comes back untouched with no emotion. (An agreeing tag further to the right is not
  looked at: the counterexample below.)
\<close>

theorem extractEmotionalMarker_leftmost_tag:
  "(leftmost_tag m i em \<and> agrees em \<longrightarrow>
      extractEmotionalMarker m =
        \<lparr>cleaned = trim (take i m @ drop (i + em_length em) m),
         emotion = map_of emojiToEmotion (em_emoji em)\<rparr>
      \<and> emotion (extractEmotionalMarker m) \<noteq> None) \<and>
   (leftmost_tag m i em \<and> \<not> agrees em \<longrightarrow>
      extractEmotionalMarker m = \<lparr>cleaned = m, emotion = None\<rparr>) \<and>
   (no_tag m \<longrightarrow> extractEmotionalMarker m = \<lparr>cleaned = m, emotion = None\<rparr>)"
proof (intro conjI impI)
  assume a: "leftmost_tag m i em \<and> agrees em"
  then have s: "re_search m_emotion m = Some (i, em)" by (simp add: leftmost_tag_search)
  from a have r: "remove_first (take (em_length em) (drop i m)) m
      = take i m @ drop (i + em_length em) m"
    by (simp add: remove_leftmost_tag)
  from a s r show "extractEmotionalMarker m =
        \<lparr>cleaned = trim (take i m @ drop (i + em_length em) m),
         emotion = map_of emojiToEmotion (em_emoji em)\<rparr>"
    by (simp add: extractEmotionalMarker_def agrees_def Let_def)
  from a s show "emotion (extractEmotionalMarker m) \<noteq> None"
    by (simp add: extractEmotionalMarker_def agrees_def Let_def)
next
  assume "leftmost_tag m i em \<and> \<not> agrees em"
  then show "extractEmotionalMarker m = \<lparr>cleaned = m, emotion = None\<rparr>"
    by (simp add: leftmost_tag_search extractEmotionalMarker_def agrees_def Let_def)
next
  assume "no_tag m"
  then show "extractEmotionalMarker m = \<lparr>cleaned = m, emotion = None\<rparr>"
    by (simp add: no_tag_search extractEmotionalMarker_def)
qed

theorem extractEmotionalMarker_second_tag_ignored:
  "has_agreeing_tag two_tags \<and> sanitizeForSpeech two_tags = two_tags \<and>
   extractEmotionalMarker two_tags = \<lparr>cleaned = two_tags, emotion = None\<rparr>"
  by code_simp

theorem extractEmotionalMarker_leftmost_tag_witness:
  "leftmost_tag tagged 9 \<lparr>em_emoji = [0x2728], em_label = js ''Success'', em_length = 11\<rparr> \<and>
   agrees \<lparr>em_emoji = [0x2728], em_label = js ''Success'', em_length = 11\<rparr> \<and>
   extractEmotionalMarker tagged = \<lparr>cleaned = js ''Deployed  to staging'', emotion = Some (js ''success'')\<rparr> \<and>
   leftmost_tag two_tags 0 \<lparr>em_emoji = [0xD83D, 0xDCA5], em_label = js ''wrong'', em_length = 10\<rparr> \<and>
   \<not> agrees \<lparr>em_emoji = [0xD83D, 0xDCA5], em_label = js ''wrong'', em_length = 10\<rparr> \<and>
   extractEmotionalMarker two_tags = \<lparr>cleaned = two_tags, emotion = None\<rparr> \<and>
   no_tag (js ''[ok] done'') \<and> extractEmotionalMarker (js ''[ok] done'') = \<lparr>cleaned = js ''[ok] done'', emotion = None\<rparr>"
proof -
  let ?a = "\<lparr>em_emoji = [0x2728], em_label = js ''Success'', em_length = 11\<rparr>"
  let ?b = "\<lparr>em_emoji = [0xD83D, 0xDCA5], em_label = js ''wrong'', em_length = 10\<rparr>"
  have h1: "leftmost_tag tagged 9 ?a" by code_simp
  have h2: "agrees ?a" by code_simp
  have h3: "leftmost_tag two_tags 0 ?b" by code_simp
  have h4: "\<not> agrees ?b" by code_simp
  have h5: "no_tag (js ''[ok] done'')" by code_simp
  have e1: "trim (take 9 tagged @ drop (9 + em_length ?a) tagged) = js ''Deployed  to staging''"
    by code_simp
  have e2: "map_of emojiToEmotion (em_emoji ?a) = Some (js ''success'')" by code_simp
  from extractEmotionalMarker_leftmost_tag[of tagged 9 ?a] h1 h2 e1 e2
  have c1: "extractEmotionalMarker tagged = \<lparr>cleaned = js ''Deployed  to staging'', emotion = Some (js ''success'')\<rparr>"
    by simp
  from extractEmotionalMarker_leftmost_tag[of two_tags 0 ?b] h3 h4
  have c2: "extractEmotionalMarker two_tags = \<lparr>cleaned = two_tags, emotion = None\<rparr>" by blast
  from extractEmotionalMarker_leftmost_tag[of "js ''[ok] done''"] h5
  have c3: "extractEmotionalMarker (js ''[ok] done'') = \<lparr>cleaned = js ''[ok] done'', emotion = None\<rparr>" by blast
  from h1 h2 h3 h4 h5 c1 c2 c3 show ?thesis by blast
qed

section \<open>The rate limiter admits ten requests a window\<close>












section \<open>A quota error of ElevenLabs switches it off until a request in flight succeeds\<close>

lemma settle_quota:
  "quota_signal r \<Longrightarrow> \<exists>e. elevenlabs_settle (Inr r) fc = (Inl e, ELEVENLABS_MAX_FAILS)"
  by (auto simp: elevenlabs_settle_def quota_signal_def split: sum.splits)

lemma settle_not_ok_keeps_disabled:
  "ELEVENLABS_MAX_FAILS \<le> fc \<Longrightarrow> \<not> settles_ok (Settle outcome) \<Longrightarrow>
   ELEVENLABS_MAX_FAILS \<le> snd (elevenlabs_settle outcome fc)"
  by (cases outcome) (auto simp: elevenlabs_settle_def split: sum.splits)

lemma providers_disabled:
  "ELEVENLABS_MAX_FAILS \<le> fc \<Longrightarrow>
   elevenlabs \<notin> set (providers cfg w fc) \<and> hd (providers cfg w fc) \<in> {piper, macos}"
  by (auto simp: providers_def)

lemma do_step_keeps_disabled:
  assumes "ELEVENLABS_MAX_FAILS \<le> counter p" "\<not> settles_ok s" "do_step cfg s p = Some p'"
  shows "ELEVENLABS_MAX_FAILS \<le> counter p'"
proof (cases s)
  case (Begin w)
  with assms show ?thesis by (auto split: if_splits)
next
  case (Settle outcome)
  with assms settle_not_ok_keeps_disabled[of "counter p" outcome] show ?thesis
    by (cases "elevenlabs_settle outcome (counter p)") (auto split: if_splits)
next
  case Caught
  with assms show ?thesis by (auto split: if_splits)
qed

lemma built_disabled:
  "ELEVENLABS_MAX_FAILS \<le> counter p \<Longrightarrow> \<not> list_ex settles_ok steps \<Longrightarrow>
   \<forall>ps\<in>set (built cfg steps p). elevenlabs \<notin> set ps \<and> hd ps \<in> {piper, macos}"
proof (induction steps arbitrary: p)
  case Nil
  then show ?case by simp
next
  case (Cons s steps)
  show ?case
  proof (cases "do_step cfg s p")
    case None
    then show ?thesis by simp
  next
    case (Some p')
    have "ELEVENLABS_MAX_FAILS \<le> counter p'"
      using do_step_keeps_disabled[OF Cons.prems(1) _ Some] Cons.prems(2) by simp
    then have rest: "\<forall>ps\<in>set (built cfg steps p'). elevenlabs \<notin> set ps \<and> hd ps \<in> {piper, macos}"
      using Cons.IH Cons.prems(2) by simp
    have here: "elevenlabs \<notin> set (providers cfg w (counter p))
                \<and> hd (providers cfg w (counter p)) \<in> {piper, macos}" for w
      using providers_disabled[OF Cons.prems(1)] .
    show ?thesis using Some rest here by (cases s) auto
  qed
qed

lemma try_providers_no_elevenlabs:
  "elevenlabs \<notin> set ps \<Longrightarrow> snd (try_providers cfg w ps lastError fc) = fc"
proof (induction ps arbitrary: lastError)
  case Nil
  then show ?case by simp
next
  case (Cons p ps)
  then show ?case by (cases p) (auto split: sum.splits)
qed

lemma providers_tail: "elevenlabs \<notin> set (tl (providers cfg w fc))"
  by (auto simp: providers_def)

lemma providers_elevenlabs:
  "elevenlabs \<in> set (providers cfg w fc) \<Longrightarrow>
   providers cfg w fc = elevenlabs # tl (providers cfg w fc) \<and> truthy_key (ELEVENLABS_API_KEY cfg)"
  by (auto simp: providers_def split: if_splits)

lemma generateSpeech_as_steps:
  "run cfg (call_steps cfg w fc) \<lparr>counter = fc, in_flight = 0, pending_catch = 0\<rparr>
   = Some \<lparr>counter = snd (generateSpeech cfg w fc), in_flight = 0, pending_catch = 0\<rparr>"
proof (cases "elevenlabs \<in> set (providers cfg w fc)")
  case False
  then show ?thesis
    by (simp add: call_steps_def generateSpeech_def try_providers_no_elevenlabs)
next
  case True
  obtain r fc' where st: "elevenlabs_settle (elevenlabs_fetch w) fc = (r, fc')"
    by (cases "elevenlabs_settle (elevenlabs_fetch w) fc")
  from providers_elevenlabs[OF True]
  have g: "generateSpeech cfg w fc = try_providers cfg w (elevenlabs # tl (providers cfg w fc)) None fc"
    and k: "truthy_key (ELEVENLABS_API_KEY cfg)"
    by (simp_all add: generateSpeech_def)
  have e: "generateSpeechElevenLabs cfg w fc = (r, fc')"
    using k st by (simp add: generateSpeechElevenLabs_def)
  show ?thesis
  proof (cases r)
    case (Inl err)
    then have "snd (generateSpeech cfg w fc) = fc' + 1"
      using g e by (simp add: try_providers_no_elevenlabs providers_tail)
    with True st Inl show ?thesis by (simp add: call_steps_def)
  next
    case (Inr a)
    then have "snd (generateSpeech cfg w fc) = fc'" using g e by simp
    with True st Inr show ?thesis by (simp add: call_steps_def)
  qed
qed

text \<open>
  Claim C1, as amended. A response of ElevenLabs that is not OK, whose body can be read and
  whose status is 429 or whose body mentions \<open>quota\<close> or \<open>limit\<close>, makes the call throw
  and sets the failure counter to its maximum at once. From that step on, for as long as
  no request to ElevenLabs that is still in flight gets an OK response, every call of
  \<open>generateSpeech\<close> that begins builds a list of providers without ElevenLabs, which starts
  with Piper or with macOS \<open>say\<close>, whatever the key is and however the steps of the
  requests in flight interleave. A call of ElevenLabs that succeeds leaves the counter at
  zero. (So a request sent before the quota error and answered after it switches
  ElevenLabs on again, and a 429 whose body cannot be read does not switch it off: the
  counterexample below.)
\<close>

theorem elevenlabs_quota_sticky:
  "(truthy_key (ELEVENLABS_API_KEY cfg) \<and> elevenlabs_fetch w = Inr r \<and> quota_signal r \<longrightarrow>
      isl (fst (generateSpeechElevenLabs cfg w fc)) \<and>
      snd (generateSpeechElevenLabs cfg w fc) = ELEVENLABS_MAX_FAILS) \<and>
   (quota_signal r \<and> \<not> list_ex settles_ok steps \<longrightarrow>
      (\<forall>ps\<in>set (built cfg (Settle (Inr r) # steps) p).
          elevenlabs \<notin> set ps \<and> hd ps \<in> {piper, macos})) \<and>
   (fst (generateSpeechElevenLabs cfg w2 fc2) = Inr a \<longrightarrow>
      snd (generateSpeechElevenLabs cfg w2 fc2) = 0)"
proof (intro conjI impI)
  assume q: "truthy_key (ELEVENLABS_API_KEY cfg) \<and> elevenlabs_fetch w = Inr r \<and> quota_signal r"
  then obtain e where "elevenlabs_settle (Inr r) fc = (Inl e, ELEVENLABS_MAX_FAILS)"
    using settle_quota[of r fc] by blast
  with q show "isl (fst (generateSpeechElevenLabs cfg w fc))"
    and "snd (generateSpeechElevenLabs cfg w fc) = ELEVENLABS_MAX_FAILS"
    by (simp_all add: generateSpeechElevenLabs_def)
next
  assume a: "quota_signal r \<and> \<not> list_ex settles_ok steps"
  show "\<forall>ps\<in>set (built cfg (Settle (Inr r) # steps) p).
          elevenlabs \<notin> set ps \<and> hd ps \<in> {piper, macos}"
  proof (cases "in_flight p = 0")
    case True
    then show ?thesis by simp
  next
    case False
    obtain e where e: "elevenlabs_settle (Inr r) (counter p) = (Inl e, ELEVENLABS_MAX_FAILS)"
      using a settle_quota[of r "counter p"] by blast
    let ?p' = "p\<lparr>counter := ELEVENLABS_MAX_FAILS, in_flight := in_flight p - 1,
                  pending_catch := pending_catch p + 1\<rparr>"
    have "built cfg (Settle (Inr r) # steps) p = built cfg steps ?p'"
      using False e by simp
    moreover have "\<forall>ps\<in>set (built cfg steps ?p'). elevenlabs \<notin> set ps \<and> hd ps \<in> {piper, macos}"
      using a by (intro built_disabled) simp_all
    ultimately show ?thesis by simp
  qed
next
  assume "fst (generateSpeechElevenLabs cfg w2 fc2) = Inr a"
  then show "snd (generateSpeechElevenLabs cfg w2 fc2) = 0"
    by (auto simp: generateSpeechElevenLabs_def elevenlabs_settle_def split: if_splits sum.splits)
qed

lemma quota_response:
  "quota_signal \<lparr>status = 401, text_body = Inr (js ''quota_exceeded''), arrayBuffer = Inr []\<rparr>"
  by (simp add: quota_signal_def response_ok_def js_def)

lemma providers_config0:
  "providers config0 world0 fc = (if fc < 3 then [elevenlabs, piper, macos] else [piper, macos])"
  "providers config0 world_quota fc = (if fc < 3 then [elevenlabs, piper, macos] else [piper, macos])"
  by (simp_all add: providers_def config0_def world0_def world_quota_def truthy_key_def
        ELEVENLABS_MAX_FAILS_def js_def)

lemma settle_examples:
  "elevenlabs_settle (elevenlabs_fetch world_quota) fc
     = (Inl (Error (js ''ElevenLabs API error: '' @ show_nat 401 @ js '' - quota_exceeded'')), 3)"
  "elevenlabs_settle (elevenlabs_fetch world0) fc = (Inr [0x49, 0x44, 0x33], 0)"
  by (simp_all add: elevenlabs_settle_def world_quota_def world0_def response_ok_def
        ELEVENLABS_MAX_FAILS_def js_def)

theorem elevenlabs_reenabled_by_late_success:
  "quota_signal \<lparr>status = 401, text_body = Inr (js ''quota_exceeded''), arrayBuffer = Inr []\<rparr> \<and>
   elevenlabs_fetch world_quota
     = Inr \<lparr>status = 401, text_body = Inr (js ''quota_exceeded''), arrayBuffer = Inr []\<rparr> \<and>
   run config0 [Begin world0, Begin world_quota, Settle (elevenlabs_fetch world_quota), Caught] idle
     = Some \<lparr>counter = 4, in_flight = 1, pending_catch = 0\<rparr> \<and>
   run config0 [Begin world0, Begin world_quota, Settle (elevenlabs_fetch world_quota), Caught,
                Settle (elevenlabs_fetch world0)] idle
     = Some \<lparr>counter = 0, in_flight = 0, pending_catch = 0\<rparr> \<and>
   built config0 [Begin world0, Begin world_quota, Settle (elevenlabs_fetch world_quota), Caught,
                  Settle (elevenlabs_fetch world0), Begin world0] idle
     = [[elevenlabs, piper, macos], [elevenlabs, piper, macos], [elevenlabs, piper, macos]] \<and>
   status (\<lparr>status = 429, text_body = Inl (Error (js ''socket closed'')), arrayBuffer = Inr []\<rparr>) = 429 \<and>
   snd (generateSpeechElevenLabs config0 world_429_unreadable 0) = 0 \<and>
   snd (generateSpeech config0 world_429_unreadable 0) = 1 \<and>
   providers config0 world0 1 = [elevenlabs, piper, macos]"
proof -
  have g: "generateSpeechElevenLabs config0 world_429_unreadable 0
           = (Inl (Error (js ''socket closed'')), 0)"
    by (simp add: generateSpeechElevenLabs_def elevenlabs_settle_def world_429_unreadable_def
          config0_def truthy_key_def response_ok_def js_def)
  have p: "providers config0 world_429_unreadable 0 = [elevenlabs, piper, macos]"
    by (simp add: providers_def config0_def world0_def world_429_unreadable_def truthy_key_def
          ELEVENLABS_MAX_FAILS_def js_def)
  have pr: "generateSpeechPiper config0 world_429_unreadable = Inr [0x52, 0x49]"
    by (simp add: generateSpeechPiper_def world_429_unreadable_def world0_def)
  have g2: "snd (generateSpeech config0 world_429_unreadable 0) = 1"
    by (simp add: generateSpeech_def p g pr)
  have f: "elevenlabs_fetch world_quota
     = Inr \<lparr>status = 401, text_body = Inr (js ''quota_exceeded''), arrayBuffer = Inr []\<rparr>"
    by (simp add: world_quota_def)
  have r1: "run config0 [Begin world0, Begin world_quota, Settle (elevenlabs_fetch world_quota),
                         Caught] idle
     = Some \<lparr>counter = 4, in_flight = 1, pending_catch = 0\<rparr>"
    by (simp add: idle_def providers_config0 settle_examples)
  have r2: "run config0 [Begin world0, Begin world_quota, Settle (elevenlabs_fetch world_quota),
                         Caught, Settle (elevenlabs_fetch world0)] idle
     = Some \<lparr>counter = 0, in_flight = 0, pending_catch = 0\<rparr>"
    by (simp add: idle_def providers_config0 settle_examples)
  have b: "built config0 [Begin world0, Begin world_quota, Settle (elevenlabs_fetch world_quota),
                          Caught, Settle (elevenlabs_fetch world0), Begin world0] idle
     = [[elevenlabs, piper, macos], [elevenlabs, piper, macos], [elevenlabs, piper, macos]]"
    by (simp add: idle_def providers_config0 settle_examples)
  have p1: "providers config0 world0 1 = [elevenlabs, piper, macos]"
    by (simp add: providers_config0)
  have s: "status (\<lparr>status = 429, text_body = Inl (Error (js ''socket closed'')),
                    arrayBuffer = Inr []\<rparr>) = 429" by simp
  have g1: "snd (generateSpeechElevenLabs config0 world_429_unreadable 0) = 0" using g by simp
  show ?thesis
    by (intro conjI quota_response f r1 r2 b s g1 g2 p1)
qed


theorem elevenlabs_quota_sticky_witness:
  "truthy_key (ELEVENLABS_API_KEY config0) \<and>
   quota_signal \<lparr>status = 401, text_body = Inr (js ''quota_exceeded''), arrayBuffer = Inr []\<rparr> \<and>
   snd (generateSpeechElevenLabs config0 world_quota 0) = 3 \<and>
   \<not> list_ex settles_ok
       [Caught, Begin world0, Settle (Inl (Error (js ''connection reset''))), Caught, Begin world0] \<and>
   built config0
     (Settle (Inr \<lparr>status = 401, text_body = Inr (js ''quota_exceeded''), arrayBuffer = Inr []\<rparr>)
      # [Caught, Begin world0, Settle (Inl (Error (js ''connection reset''))), Caught, Begin world0])
     \<lparr>counter = 0, in_flight = 2, pending_catch = 0\<rparr>
     = [[piper, macos], [piper, macos]] \<and>
   list_all (\<lambda>ps. elevenlabs \<notin> set ps \<and> hd ps \<in> {piper, macos})
     (built config0
       (Settle (Inr \<lparr>status = 401, text_body = Inr (js ''quota_exceeded''), arrayBuffer = Inr []\<rparr>)
        # [Caught, Begin world0, Settle (Inl (Error (js ''connection reset''))), Caught, Begin world0])
       \<lparr>counter = 0, in_flight = 2, pending_catch = 0\<rparr>) \<and>
   fst (generateSpeechElevenLabs config0 world0 2) = Inr [0x49, 0x44, 0x33] \<and>
   snd (generateSpeechElevenLabs config0 world0 2) = 0"
proof -
  let ?r = "\<lparr>status = 401, text_body = Inr (js ''quota_exceeded''), arrayBuffer = Inr []\<rparr>"
  let ?steps = "[Caught, Begin world0, Settle (Inl (Error (js ''connection reset''))), Caught,
                 Begin world0]"
  let ?p = "\<lparr>counter = 0, in_flight = 2, pending_catch = 0\<rparr>"
  note inst = elevenlabs_quota_sticky[of config0 world_quota ?r 0 ?steps ?p world0 2
                                        "[0x49, 0x44, 0x33]"]
  have h1: "truthy_key (ELEVENLABS_API_KEY config0)"
    by (simp add: config0_def truthy_key_def js_def)
  have h2: "elevenlabs_fetch world_quota = Inr ?r" by (simp add: world_quota_def)
  have h3: "quota_signal ?r" by (rule quota_response)
  have h4: "\<not> list_ex settles_ok ?steps" by simp
  have h6: "fst (generateSpeechElevenLabs config0 world0 2) = Inr [0x49, 0x44, 0x33]"
    by (simp add: generateSpeechElevenLabs_def settle_examples config0_def truthy_key_def js_def)
  have e2: "ELEVENLABS_MAX_FAILS = 3" by (simp add: ELEVENLABS_MAX_FAILS_def)
  have s1: "elevenlabs_settle (Inr ?r) fc
     = (Inl (Error (js ''ElevenLabs API error: '' @ show_nat 401 @ js '' - quota_exceeded'')), 3)" for fc
    using settle_examples(1)[of fc] h2 by simp
  have s2: "elevenlabs_settle (Inl e) fc = (Inl e, fc)" for e fc
    by (simp add: elevenlabs_settle_def)
  have b: "built config0 (Settle (Inr ?r) # ?steps) ?p = [[piper, macos], [piper, macos]]"
    by (simp add: s1 s2 providers_config0)
  have a: "truthy_key (ELEVENLABS_API_KEY config0) \<and> elevenlabs_fetch world_quota = Inr ?r
           \<and> quota_signal ?r"
    using h1 h2 h3 by (intro conjI)
  have c1: "snd (generateSpeechElevenLabs config0 world_quota 0) = 3"
    using inst[THEN conjunct1, THEN mp, OF a, THEN conjunct2] e2 by (rule trans)
  have c2: "list_all (\<lambda>ps. elevenlabs \<notin> set ps \<and> hd ps \<in> {piper, macos})
              (built config0 (Settle (Inr ?r) # ?steps) ?p)"
    using inst[THEN conjunct2, THEN conjunct1, THEN mp, OF conjI[OF h3 h4]]
    by (simp only: list_all_iff)
  note c3 = inst[THEN conjunct2, THEN conjunct2, THEN mp, OF h6]
  show ?thesis
    by (intro conjI h1 h3 c1 h4 b c2 h6 c3)
qed

section \<open>A failure of every provider is caught, and its log entry replaces the log\<close>

lemma elevenlabs_throws_any: 
  "isl (fst (generateSpeechElevenLabs cfg w fc)) \<longleftrightarrow> isl (fst (generateSpeechElevenLabs cfg w fc'))"
  by (auto simp: generateSpeechElevenLabs_def elevenlabs_settle_def split: sum.splits)

lemma provider_throws_any: "provider_throws cfg w fc p \<longleftrightarrow> provider_throws cfg w fc' p"
  using elevenlabs_throws_any by (cases p) auto

lemma try_providers_all_throw:
  "list_all (provider_throws cfg w fc0) ps \<Longrightarrow>
   fst (try_providers cfg w (ps @ [macos]) lastError fc) = Inl e \<longleftrightarrow> say_run w = Inl e"
proof (induction ps arbitrary: lastError fc)
  case Nil
  then show ?case by (auto simp: generateSpeechMacOS_def split: sum.splits)
next
  case (Cons p ps)
  have "provider_throws cfg w fc0 p" using Cons.prems by simp
  then have t: "provider_throws cfg w fc p" using provider_throws_any[of cfg w fc0 p fc] by simp
  show ?case
  proof (cases p)
    case elevenlabs
    with t obtain e' fc' where "generateSpeechElevenLabs cfg w fc = (Inl e', fc')"
      by (cases "generateSpeechElevenLabs cfg w fc") (auto simp: isl_def)
    with elevenlabs Cons show ?thesis by simp
  next
    case piper
    with t obtain e' where "generateSpeechPiper cfg w = Inl e'" by (auto simp: isl_def)
    with piper Cons show ?thesis by simp
  next
    case macos
    with t obtain e' where "generateSpeechMacOS w = Inl e'" by (auto simp: isl_def)
    with macos Cons show ?thesis by simp
  qed
qed

lemma providers_snoc: "\<exists>ps. providers cfg w fc = ps @ [macos]"
  by (simp add: providers_def)

lemma generateSpeech_all_throw:
  assumes "list_all (provider_throws cfg w fc) (providers cfg w fc)" and "say_run w = Inl e"
  shows "fst (generateSpeech cfg w fc) = Inl e"
proof -
  obtain ps where ps: "providers cfg w fc = ps @ [macos]" using providers_snoc by blast
  with assms(1) have "list_all (provider_throws cfg w fc) ps" by simp
  from try_providers_all_throw[OF this] assms(2) ps show ?thesis
    by (simp add: generateSpeech_def)
qed

lemma valid_is_string: "valid (validateInput v) \<Longrightarrow> is_string v \<and> truthy v"
  by (auto simp: validateInput_def Let_def split: if_splits)

lemma valid_sanitized:
  "valid (validateInput v) \<Longrightarrow> sanitized_text (validateInput v) = sanitizeForSpeech (the_string v)"
  by (auto simp: validateInput_def sanitized_text_def Let_def split: if_splits)

lemma string_toString: "is_string v \<Longrightarrow> \<not> toString_throws v"
  by (cases v) simp_all

lemma notify_valid:
  assumes "req_json req = Inr data" "passes_validation data"
  shows "notify cfg w req st =
     sendNotification cfg w (body_title data) (body_message data) (body_voiceEnabled data)
       (if is_string (body_voiceId data) then Some (the_string (body_voiceId data)) else None) st"
  using assms valid_is_string[of "body_message data"] valid_is_string[of "body_title data"]
    string_toString[of "body_title data"]
  by (auto simp: notify_def passes_validation_def Let_def)

lemma sendNotification_all_throw:
  assumes "valid (validateInput t)" "valid (validateInput m)"
    and "fst (generateSpeech cfg w (elevenLabsFailCount st)) = Inl e"
  shows "fst (sendNotification cfg w t m True vid st) = Inr () \<and>
         errorLog (snd (sendNotification cfg w t m True vid st)) =
           isoString w @ js '' - TTS Error: ''
           @ (if err_message e \<noteq> [] then err_message e else error_toString e)
           @ [0x0A] @ js ''Message: ''
           @ cleaned (extractEmotionalMarker (sanitizeForSpeech (the_string m))) @ [0x0A, 0x0A]"
proof -
  obtain fc where g: "generateSpeech cfg w (elevenLabsFailCount st) = (Inl e, fc)"
    using assms(3) by (cases "generateSpeech cfg w (elevenLabsFailCount st)") auto
  show ?thesis
    using assms(1,2) g valid_sanitized[OF assms(2)]
    by (simp add: sendNotification_def log_tts_error_def Let_def)
qed


lemma sendNotification_valid_returns:
  "valid (validateInput t) \<Longrightarrow> valid (validateInput m) \<Longrightarrow>
   fst (sendNotification cfg w t m v vid st) = Inr ()"
  by (simp add: sendNotification_def Let_def split: prod.splits sum.splits)

lemma fetch_notify_admitted:
  assumes "req_method req = js ''POST''" "req_pathname req = js ''/notify''"
    and "checkRateLimit (date_now w) (clientIp req) (requestCounts st) = (True, tbl)"
  shows "fetch cfg w req st =
     (case notify cfg w req (st\<lparr>requestCounts := tbl\<rparr>) of
        (Inr _, st2) \<Rightarrow>
          (\<lparr>resp_status = 200, resp_headers = jsonHeaders,
            resp_body = JsonBody (JObj [(js ''status'', JStr (js ''success'')),
                                        (js ''message'', JStr (js ''Notification sent''))])\<rparr>,
           st2)
      | (Inl e, st2) \<Rightarrow>
          (\<lparr>resp_status = (if str_includes (err_message e) (js ''Invalid'') then 400 else 500),
            resp_headers = jsonHeaders,
            resp_body = JsonBody (JObj [(js ''status'', JStr (js ''error'')),
                                        (js ''message'',
                                         JStr (if err_message e \<noteq> [] then err_message e
                                               else js ''Internal server error''))])\<rparr>,
           st2))"
proof -
  have "js ''POST'' \<noteq> js ''OPTIONS''" by (simp add: js_def)
  with assms show ?thesis by (simp add: fetch_def Let_def)
qed

text \<open>
  What the handler does when every provider throws, for a \<open>POST /notify\<close> that the limiter
  admits, whose body passes validation and leaves voice enabled. The error that
  \<open>generateSpeech\<close> throws is the one of macOS \<open>say\<close>, the last in the list; it is caught
  and the response is 200 with \<open>status: success\<close>. The entry with the timestamp, the text
  of that error and the message as it was to be spoken is written, and it is then all the
  log holds.
\<close>

lemma fetch_all_providers_throw:
  assumes "req_method req = js ''POST''" "req_pathname req = js ''/notify''"
    and "fst (checkRateLimit (date_now w) (clientIp req) (requestCounts st))"
    and "req_json req = Inr data" "passes_validation data" "body_voiceEnabled data"
    and "list_all (provider_throws cfg w (elevenLabsFailCount st))
           (providers cfg w (elevenLabsFailCount st))"
    and "say_run w = Inl e"
  shows "resp_status (fst (fetch cfg w req st)) = 200 \<and>
         resp_body (fst (fetch cfg w req st)) = success_body \<and>
         errorLog (snd (fetch cfg w req st))
           = isoString w @ js '' - TTS Error: ''
             @ (if err_message e \<noteq> [] then err_message e else error_toString e)
             @ [0x0A] @ js ''Message: ''
             @ cleaned (extractEmotionalMarker (sanitizeForSpeech (the_string (body_message data))))
             @ [0x0A, 0x0A]"
proof -
  obtain tbl where c: "checkRateLimit (date_now w) (clientIp req) (requestCounts st) = (True, tbl)"
    using assms(3) by (cases "checkRateLimit (date_now w) (clientIp req) (requestCounts st)") auto
  let ?st1 = "st\<lparr>requestCounts := tbl\<rparr>"
  let ?vid = "if is_string (body_voiceId data) then Some (the_string (body_voiceId data)) else None"
  have v: "valid (validateInput (body_title data))" "valid (validateInput (body_message data))"
    using assms(5) by (simp_all add: passes_validation_def)
  have g: "fst (generateSpeech cfg w (elevenLabsFailCount ?st1)) = Inl e"
    using generateSpeech_all_throw[OF assms(7,8)] by simp
  have n: "notify cfg w req ?st1
      = sendNotification cfg w (body_title data) (body_message data) True ?vid ?st1"
    using notify_valid[OF assms(4,5)] assms(6) by simp
  from sendNotification_all_throw[OF v g, of ?vid]
  obtain st2 where s: "notify cfg w req ?st1 = (Inr (), st2)"
    and l: "errorLog st2 = isoString w @ js '' - TTS Error: ''
             @ (if err_message e \<noteq> [] then err_message e else error_toString e)
             @ [0x0A] @ js ''Message: ''
             @ cleaned (extractEmotionalMarker (sanitizeForSpeech (the_string (body_message data))))
             @ [0x0A, 0x0A]"
    unfolding n
    by (cases "sendNotification cfg w (body_title data) (body_message data) True ?vid ?st1") auto
  show ?thesis
    unfolding fetch_notify_admitted[OF assms(1,2) c] s using l by (simp add: success_body_def)
qed

lemma passes_validation_hi:
  "passes_validation (JObj [(js ''message'', JStr (js ''Build done''))])"
  by code_simp

lemma cleaned_hi:
  "cleaned (extractEmotionalMarker (sanitizeForSpeech (the_string
      (body_message (JObj [(js ''message'', JStr (js ''Build done''))]))))) = js ''Build done''"
  by code_simp

text \<open>
  Claim C3. The claim holds but for one word. With every provider failing, the error is
  caught, an entry with the timestamp, the error and the message is written to the error
  log, and the response is 200 with \<open>status: success\<close>. The entry is not appended: the log
  that held an earlier entry holds the new one alone afterwards. The source asks for
  appending with a flag that \<open>Bun.write\<close> does not have.
\<close>

theorem tts_failure_overwrites_log:
  "errorLog state_logged
     = js ''2025-12-30T08:00:00.000Z - TTS Error: earlier'' @ [0x0A] @ js ''Message: earlier''
       @ [0x0A, 0x0A] \<and>
   providers config0 world_silent (elevenLabsFailCount state_logged) = [elevenlabs, piper, macos] \<and>
   list_all (provider_throws config0 world_silent (elevenLabsFailCount state_logged))
     (providers config0 world_silent (elevenLabsFailCount state_logged)) \<and>
   resp_status (fst (fetch config0 world_silent req_hi state_logged)) = 200 \<and>
   resp_body (fst (fetch config0 world_silent req_hi state_logged)) = success_body \<and>
   errorLog (snd (fetch config0 world_silent req_hi state_logged))
     = js ''2025-12-31T12:00:00.000Z - TTS Error: macOS say exited with code 1'' @ [0x0A]
       @ js ''Message: Build done'' @ [0x0A, 0x0A] \<and>
   \<not> prefix (errorLog state_logged)
       (errorLog (snd (fetch config0 world_silent req_hi state_logged)))"
proof -
  let ?data = "JObj [(js ''message'', JStr (js ''Build done''))]"
  let ?e = "Error (js ''macOS say exited with code 1'')"
  have h1: "req_method req_hi = js ''POST''" "req_pathname req_hi = js ''/notify''"
    "req_json req_hi = Inr ?data"
    by (simp_all add: req_hi_def post_notify_def)
  have h2: "fst (checkRateLimit (date_now world_silent) (clientIp req_hi)
                   (requestCounts state_logged))"
    by (simp add: checkRateLimit_def state_logged_def state0_def)
  have h3: "body_voiceEnabled ?data" by (simp add: body_voiceEnabled_def js_def)
  have h0: "elevenLabsFailCount state_logged = 0" by (simp add: state_logged_def state0_def)
  have old: "errorLog state_logged
     = js ''2025-12-30T08:00:00.000Z - TTS Error: earlier'' @ [0x0A] @ js ''Message: earlier''
       @ [0x0A, 0x0A]"
    by (simp add: state_logged_def)
  have p: "providers config0 world_silent (elevenLabsFailCount state_logged)
           = [elevenlabs, piper, macos]"
    by (simp add: h0 providers_def config0_def world_silent_def world0_def truthy_key_def
          ELEVENLABS_MAX_FAILS_def js_def)
  have h4: "list_all (provider_throws config0 world_silent (elevenLabsFailCount state_logged))
              (providers config0 world_silent (elevenLabsFailCount state_logged))"
    unfolding p
    by (simp add: generateSpeechElevenLabs_def elevenlabs_settle_def generateSpeechPiper_def
          generateSpeechMacOS_def config0_def world_silent_def world0_def truthy_key_def
          response_ok_def js_def)
  have h5: "say_run world_silent = Inl ?e" by (simp add: world_silent_def)
  have iso: "isoString world_silent = js ''2025-12-31T12:00:00.000Z''"
    by (simp add: world_silent_def world0_def)
  have msg: "err_message ?e = js ''macOS say exited with code 1''"
    "js ''macOS say exited with code 1'' \<noteq> []"
    by (simp_all add: Error_def js_def)
  note inst = fetch_all_providers_throw[OF h1(1,2) h2 h1(3) passes_validation_hi h3 h4 h5,
      unfolded cleaned_hi iso]
  have l: "errorLog (snd (fetch config0 world_silent req_hi state_logged))
     = js ''2025-12-31T12:00:00.000Z - TTS Error: macOS say exited with code 1'' @ [0x0A]
       @ js ''Message: Build done'' @ [0x0A, 0x0A]"
    using inst[THEN conjunct2, THEN conjunct2] msg by (simp add: js_def)
  have np: "\<not> prefix (errorLog state_logged)
              (errorLog (snd (fetch config0 world_silent req_hi state_logged)))"
    unfolding l old by (simp add: js_def)
  show ?thesis
    by (intro conjI old p h4 inst[THEN conjunct1] inst[THEN conjunct2, THEN conjunct1] l np)
qed

section \<open>Status codes of the handler\<close>

lemma cors_lookup:
  "map_of corsHeaders (js ''Access-Control-Allow-Origin'') = Some (js ''http://localhost'')"
  "map_of jsonHeaders (js ''Access-Control-Allow-Origin'') = Some (js ''http://localhost'')"
  by (simp_all add: corsHeaders_def jsonHeaders_def)

lemma fetch_headers:
  "resp_headers (fst (fetch cfg w req st)) = corsHeaders \<or>
   resp_headers (fst (fetch cfg w req st)) = jsonHeaders"
  by (simp add: fetch_def Let_def split: prod.splits sum.splits)

lemma post_not_options: "js ''POST'' \<noteq> js ''OPTIONS''"
  by (simp add: js_def)

lemma invalid_prefix: "str_includes (js ''Invalid'' @ x) (js ''Invalid'')"
  by (simp add: js_def)

lemma notify_invalid_field:
  assumes "req_json req = Inr data" "data \<noteq> JNull" "data \<noteq> JUndefined"
    and "truthy (body_voiceId data) \<longrightarrow> is_string (body_voiceId data)"
    and "\<not> toString_throws (body_title data)" and "is_string (body_message data)"
    and "\<not> valid (validateInput (body_title data)) \<or> \<not> valid (validateInput (body_message data))"
  shows "\<exists>e. fst (notify cfg w req st) = Inl e \<and> str_includes (err_message e) (js ''Invalid'')"
proof -
  have t: "str_includes (err_message (Error (js ''Invalid title: '' @ x))) (js ''Invalid'')" for x
    by (simp add: Error_def js_def)
  have m: "str_includes (err_message (Error (js ''Invalid message: '' @ x))) (js ''Invalid'')" for x
    by (simp add: Error_def js_def)
  show ?thesis
    using assms t m by (auto simp: notify_def sendNotification_def Let_def)
qed

text \<open>
  Claim C5. An \<open>OPTIONS\<close> request gets 204. Any other request that the limiter refuses
  gets 429. An admitted \<open>POST /notify\<close> gets 200 with \<open>status: success\<close> when its
  processing returns, and when it throws, 400 if the message of the error contains
  \<open>Invalid\<close> and 500 if not. A title or message that fails validation gives 400, when
  the handler gets as far as validating (the title can be turned into a string for the log
  line and the message is a string). Every response has the header
  \<open>Access-Control-Allow-Origin: http://localhost\<close>.
\<close>

theorem fetch_status_codes:
  "(req_method req = js ''OPTIONS'' \<longrightarrow> resp_status (fst (fetch cfg w req st)) = 204) \<and>
   (req_method req \<noteq> js ''OPTIONS'' \<and>
    \<not> fst (checkRateLimit (date_now w) (clientIp req) (requestCounts st)) \<longrightarrow>
      resp_status (fst (fetch cfg w req st)) = 429) \<and>
   (req_method req = js ''POST'' \<and> req_pathname req = js ''/notify'' \<and>
    checkRateLimit (date_now w) (clientIp req) (requestCounts st) = (True, tbl) \<longrightarrow>
      (case fst (notify cfg w req (st\<lparr>requestCounts := tbl\<rparr>)) of
         Inr u \<Rightarrow> resp_status (fst (fetch cfg w req st)) = 200 \<and>
                  resp_body (fst (fetch cfg w req st)) = success_body
       | Inl e \<Rightarrow> resp_status (fst (fetch cfg w req st))
                    = (if str_includes (err_message e) (js ''Invalid'') then 400 else 500))) \<and>
   (req_method req = js ''POST'' \<and> req_pathname req = js ''/notify'' \<and>
    fst (checkRateLimit (date_now w) (clientIp req) (requestCounts st)) \<and>
    req_json req = Inr data \<and> data \<noteq> JNull \<and> data \<noteq> JUndefined \<and>
    (truthy (body_voiceId data) \<longrightarrow> is_string (body_voiceId data)) \<and>
    \<not> toString_throws (body_title data) \<and> is_string (body_message data) \<and>
    (\<not> valid (validateInput (body_title data)) \<or> \<not> valid (validateInput (body_message data)))
    \<longrightarrow> resp_status (fst (fetch cfg w req st)) = 400) \<and>
   map_of (resp_headers (fst (fetch cfg w req st))) (js ''Access-Control-Allow-Origin'')
     = Some (js ''http://localhost'')"
proof (intro conjI impI)
  show "map_of (resp_headers (fst (fetch cfg w req st))) (js ''Access-Control-Allow-Origin'')
     = Some (js ''http://localhost'')"
    using fetch_headers[of cfg w req st] cors_lookup by auto
next
  assume "req_method req = js ''OPTIONS''"
  then show "resp_status (fst (fetch cfg w req st)) = 204" by (simp add: fetch_def)
next
  assume "req_method req \<noteq> js ''OPTIONS'' \<and>
    \<not> fst (checkRateLimit (date_now w) (clientIp req) (requestCounts st))"
  then obtain tbl' where "req_method req \<noteq> js ''OPTIONS''"
    "checkRateLimit (date_now w) (clientIp req) (requestCounts st) = (False, tbl')"
    by (cases "checkRateLimit (date_now w) (clientIp req) (requestCounts st)") auto
  then show "resp_status (fst (fetch cfg w req st)) = 429"
    by (simp add: fetch_def)
next
  assume a: "req_method req = js ''POST'' \<and> req_pathname req = js ''/notify'' \<and>
    checkRateLimit (date_now w) (clientIp req) (requestCounts st) = (True, tbl)"
  show "case fst (notify cfg w req (st\<lparr>requestCounts := tbl\<rparr>)) of
         Inr u \<Rightarrow> resp_status (fst (fetch cfg w req st)) = 200 \<and>
                  resp_body (fst (fetch cfg w req st)) = success_body
       | Inl e \<Rightarrow> resp_status (fst (fetch cfg w req st))
                    = (if str_includes (err_message e) (js ''Invalid'') then 400 else 500)"
    using a fetch_notify_admitted[of req w st tbl cfg]
    by (cases "notify cfg w req (st\<lparr>requestCounts := tbl\<rparr>)")
       (auto simp: success_body_def split: sum.splits)
next
  assume a: "req_method req = js ''POST'' \<and> req_pathname req = js ''/notify'' \<and>
    fst (checkRateLimit (date_now w) (clientIp req) (requestCounts st)) \<and>
    req_json req = Inr data \<and> data \<noteq> JNull \<and> data \<noteq> JUndefined \<and>
    (truthy (body_voiceId data) \<longrightarrow> is_string (body_voiceId data)) \<and>
    \<not> toString_throws (body_title data) \<and> is_string (body_message data) \<and>
    (\<not> valid (validateInput (body_title data)) \<or> \<not> valid (validateInput (body_message data)))"
  then obtain tbl' where c: "checkRateLimit (date_now w) (clientIp req) (requestCounts st) = (True, tbl')"
    by (cases "checkRateLimit (date_now w) (clientIp req) (requestCounts st)") auto
  from a notify_invalid_field[of req data cfg w "st\<lparr>requestCounts := tbl'\<rparr>"]
  obtain e st2 where "notify cfg w req (st\<lparr>requestCounts := tbl'\<rparr>) = (Inl e, st2)"
    "str_includes (err_message e) (js ''Invalid'')"
    by (cases "notify cfg w req (st\<lparr>requestCounts := tbl'\<rparr>)") auto
  with a c fetch_notify_admitted[of req w st tbl' cfg]
  show "resp_status (fst (fetch cfg w req st)) = 400" by simp
qed


lemma notify_hi:
  "fst (notify config0 world0 req_hi st) = Inr ()"
proof -
  have "req_json req_hi = Inr (JObj [(js ''message'', JStr (js ''Build done''))])"
    by (simp add: req_hi_def post_notify_def)
  from notify_valid[OF this passes_validation_hi] passes_validation_hi show ?thesis
    by (simp add: sendNotification_valid_returns passes_validation_def)
qed

theorem fetch_status_codes_witness:
  "resp_status (fst (fetch config0 world0 req_options state_full)) = 204 \<and>
   resp_status (fst (fetch config0 world0 (post_notify (JObj [])) state_full)) = 429 \<and>
   resp_status (fst (fetch config0 world0 req_hi state0)) = 200 \<and>
   resp_body (fst (fetch config0 world0 req_hi state0)) = success_body \<and>
   resp_status (fst (fetch config0 world0 (post_notify JNull) state0)) = 500 \<and>
   resp_status (fst (fetch config0 world0 (post_notify (JObj [(js ''title'', JNum 5)])) state0)) = 400 \<and>
   resp_status (fst (fetch config0 world0
      (post_notify (JObj [(js ''title'', JObj [(js ''toString'', JNum 1)]),
                          (js ''message'', JStr (js ''hi''))])) state0)) = 500 \<and>
   map_of (resp_headers (fst (fetch config0 world0 req_hi state0))) (js ''Access-Control-Allow-Origin'')
     = Some (js ''http://localhost'')"
proof -
  let ?tbl = "[js ''localhost'' \<mapsto> \<lparr>count = 1, resetTime = 90000\<rparr>]"
  let ?st1 = "state0\<lparr>requestCounts := ?tbl\<rparr>"
  have c0: "checkRateLimit (date_now world0) (clientIp (post_notify d)) (requestCounts state0)
            = (True, ?tbl)" for d
    by (simp add: checkRateLimit_def state0_def world0_def post_notify_def clientIp_def
          RATE_WINDOW_def)
  have pm: "req_method (post_notify d) = js ''POST''" "req_pathname (post_notify d) = js ''/notify''"
    "req_json (post_notify d) = Inr d" for d
    by (simp_all add: post_notify_def)
  have c1: "resp_status (fst (fetch config0 world0 req_options state_full)) = 204"
    using fetch_status_codes[of req_options config0 world0 state_full] by (simp add: req_options_def)
  have "\<not> fst (checkRateLimit (date_now world0) (clientIp (post_notify (JObj [])))
                (requestCounts state_full))"
    by (simp add: checkRateLimit_def state_full_def state0_def world0_def post_notify_def
          clientIp_def RATE_LIMIT_def)
  then have c2: "resp_status (fst (fetch config0 world0 (post_notify (JObj [])) state_full)) = 429"
    using fetch_status_codes[of "post_notify (JObj [])" config0 world0 state_full] pm post_not_options by simp
  have c3: "resp_status (fst (fetch config0 world0 req_hi state0)) = 200 \<and>
            resp_body (fst (fetch config0 world0 req_hi state0)) = success_body"
    using fetch_status_codes[of req_hi config0 world0 state0 ?tbl] pm c0 notify_hi[of ?st1]
    by (simp add: req_hi_def)
  have n4: "fst (notify config0 world0 (post_notify JNull) ?st1) = Inl (typeError_null world0)"
    by (simp add: notify_def pm)
  have m4: "\<not> str_includes (err_message (typeError_null world0)) (js ''Invalid'')"
    by (simp add: world0_def js_def)
  have c4: "resp_status (fst (fetch config0 world0 (post_notify JNull) state0)) = 500"
    using fetch_status_codes[of "post_notify JNull" config0 world0 state0 ?tbl] pm c0 n4 m4 by simp
  have v5: "\<not> valid (validateInput (body_title (JObj [(js ''title'', JNum 5)])))"
    "is_string (body_message (JObj [(js ''title'', JNum 5)]))"
    "\<not> truthy (body_voiceId (JObj [(js ''title'', JNum 5)]))"
    "\<not> toString_throws (body_title (JObj [(js ''title'', JNum 5)]))"
    by (simp_all add: body_title_def body_message_def body_voiceId_def js_or_def
          validateInput_def js_def)
  let ?odd = "JObj [(js ''title'', JObj [(js ''toString'', JNum 1)]),
                    (js ''message'', JStr (js ''hi''))]"
  have n7: "fst (notify config0 world0 (post_notify ?odd) ?st1) = Inl (typeError_toString world0)"
    by (simp add: notify_def pm body_title_def body_message_def body_voiceId_def js_or_def js_def)
  have m7: "\<not> str_includes (err_message (typeError_toString world0)) (js ''Invalid'')"
    by (simp add: world0_def js_def)
  have c7: "resp_status (fst (fetch config0 world0 (post_notify ?odd) state0)) = 500"
    using fetch_status_codes[of "post_notify ?odd" config0 world0 state0 ?tbl] pm c0 n7 m7
    by simp
  have c5: "resp_status (fst (fetch config0 world0 (post_notify (JObj [(js ''title'', JNum 5)])) state0)) = 400"
    using fetch_status_codes[of "post_notify (JObj [(js ''title'', JNum 5)])" config0 world0 state0 _
             "JObj [(js ''title'', JNum 5)]"] pm c0 v5 by simp
  have c6: "map_of (resp_headers (fst (fetch config0 world0 req_hi state0)))
              (js ''Access-Control-Allow-Origin'') = Some (js ''http://localhost'')"
    using fetch_status_codes[of req_hi config0 world0 state0] by blast
  from c1 c2 c3 c4 c5 c6 c7 show ?thesis by blast
qed

section \<open>Default title and message\<close>

lemma get_prop_update:
  "get_prop (JObj (AList.update k v fs)) k' = (if k' = k then v else get_prop (JObj fs) k')"
  by (simp add: update_conv')

lemma notify_keys_distinct:
  "js ''message'' \<noteq> js ''title''" "js ''message'' \<noteq> js ''voice_enabled''"
  "js ''message'' \<noteq> js ''voice_id''" "js ''message'' \<noteq> js ''voice_name''"
  "js ''title'' \<noteq> js ''voice_enabled''" "js ''title'' \<noteq> js ''voice_id''"
  "js ''title'' \<noteq> js ''voice_name''" "js ''title'' \<noteq> js ''message''"
  by (simp_all add: js_def)

lemma fetch_cong_notify:
  assumes "notify cfg w (req\<lparr>req_json := a\<rparr>) = notify cfg w (req\<lparr>req_json := b\<rparr>)"
  shows "fetch cfg w (req\<lparr>req_json := a\<rparr>) st = fetch cfg w (req\<lparr>req_json := b\<rparr>) st"
proof -
  obtain ok tbl where c: "checkRateLimit (date_now w) (clientIp req) (requestCounts st) = (ok, tbl)"
    by (cases "checkRateLimit (date_now w) (clientIp req) (requestCounts st)")
  have ip: "clientIp (req\<lparr>req_json := x\<rparr>) = clientIp req" for x
    by (simp add: clientIp_def)
  show ?thesis using c assms by (simp add: fetch_def ip Let_def)
qed

lemma default_message_same_notify:
  assumes "\<not> truthy (get_prop (JObj fs) (js ''message''))"
  shows "notify cfg w (req\<lparr>req_json := Inr (JObj fs)\<rparr>)
       = notify cfg w (req\<lparr>req_json :=
           Inr (JObj (AList.update (js ''message'') (JStr (js ''Task completed'')) fs))\<rparr>)"
proof -
  let ?fs' = "AList.update (js ''message'') (JStr (js ''Task completed'')) fs"
  have t: "truthy (JStr (js ''Task completed''))" by (simp add: js_def)
  have "body_message (JObj ?fs') = body_message (JObj fs)"
    using assms t unfolding body_message_def get_prop_update by (simp add: js_or_def)
  moreover have "body_title (JObj ?fs') = body_title (JObj fs)"
    "body_voiceEnabled (JObj ?fs') = body_voiceEnabled (JObj fs)"
    "body_voiceId (JObj ?fs') = body_voiceId (JObj fs)"
    unfolding body_title_def body_voiceEnabled_def body_voiceId_def get_prop_update
    using notify_keys_distinct by simp_all
  ultimately show ?thesis by (intro ext) (simp add: notify_def)
qed

lemma default_title_same_notify:
  assumes "\<not> truthy (get_prop (JObj fs) (js ''title''))"
  shows "notify cfg w (req\<lparr>req_json := Inr (JObj fs)\<rparr>)
       = notify cfg w (req\<lparr>req_json :=
           Inr (JObj (AList.update (js ''title'') (JStr (js ''PAI Notification'')) fs))\<rparr>)"
proof -
  let ?fs' = "AList.update (js ''title'') (JStr (js ''PAI Notification'')) fs"
  have t: "truthy (JStr (js ''PAI Notification''))" by (simp add: js_def)
  have "body_title (JObj ?fs') = body_title (JObj fs)"
    using assms t unfolding body_title_def get_prop_update by (simp add: js_or_def)
  moreover have "body_message (JObj ?fs') = body_message (JObj fs)"
    "body_voiceEnabled (JObj ?fs') = body_voiceEnabled (JObj fs)"
    "body_voiceId (JObj ?fs') = body_voiceId (JObj fs)"
    unfolding body_message_def body_voiceEnabled_def body_voiceId_def get_prop_update
    using notify_keys_distinct by simp_all
  ultimately show ?thesis by (intro ext) (simp add: notify_def)
qed

lemma default_texts_valid:
  "validateInput (JStr (js ''Task completed''))
     = \<lparr>valid = True, error = None, sanitized = Some (js ''Task completed'')\<rparr>"
  "validateInput (JStr (js ''PAI Notification''))
     = \<lparr>valid = True, error = None, sanitized = Some (js ''PAI Notification'')\<rparr>"
  by code_simp+

text \<open>
  Claim C10. A body whose \<open>message\<close> is absent or falsy is handled exactly as the body
  with \<open>message\<close> set to \<open>Task completed\<close>: same response, same state afterwards; and
  so for \<open>title\<close> and \<open>PAI Notification\<close>. Both default texts are valid. So an admitted
  \<open>POST /notify\<close> without a message, with a valid title and no ill-typed voice, gets 200.
\<close>

theorem notify_default_message:
  "(\<not> truthy (get_prop (JObj fs) (js ''message'')) \<longrightarrow>
      fetch cfg w (req\<lparr>req_json := Inr (JObj fs)\<rparr>) st
      = fetch cfg w (req\<lparr>req_json :=
          Inr (JObj (AList.update (js ''message'') (JStr (js ''Task completed'')) fs))\<rparr>) st) \<and>
   (\<not> truthy (get_prop (JObj fs) (js ''title'')) \<longrightarrow>
      fetch cfg w (req\<lparr>req_json := Inr (JObj fs)\<rparr>) st
      = fetch cfg w (req\<lparr>req_json :=
          Inr (JObj (AList.update (js ''title'') (JStr (js ''PAI Notification'')) fs))\<rparr>) st) \<and>
   validateInput (JStr (js ''Task completed''))
     = \<lparr>valid = True, error = None, sanitized = Some (js ''Task completed'')\<rparr> \<and>
   validateInput (JStr (js ''PAI Notification''))
     = \<lparr>valid = True, error = None, sanitized = Some (js ''PAI Notification'')\<rparr> \<and>
   (req_method req = js ''POST'' \<and> req_pathname req = js ''/notify'' \<and>
    fst (checkRateLimit (date_now w) (clientIp req) (requestCounts st)) \<and>
    req_json req = Inr (JObj fs) \<and> \<not> truthy (get_prop (JObj fs) (js ''message'')) \<and>
    valid (validateInput (body_title (JObj fs))) \<and>
    (truthy (body_voiceId (JObj fs)) \<longrightarrow> is_string (body_voiceId (JObj fs))) \<longrightarrow>
      resp_status (fst (fetch cfg w req st)) = 200)"
proof (intro conjI impI)
  assume a: "req_method req = js ''POST'' \<and> req_pathname req = js ''/notify'' \<and>
    fst (checkRateLimit (date_now w) (clientIp req) (requestCounts st)) \<and>
    req_json req = Inr (JObj fs) \<and> \<not> truthy (get_prop (JObj fs) (js ''message'')) \<and>
    valid (validateInput (body_title (JObj fs))) \<and>
    (truthy (body_voiceId (JObj fs)) \<longrightarrow> is_string (body_voiceId (JObj fs)))"
  then obtain tbl where c: "checkRateLimit (date_now w) (clientIp req) (requestCounts st) = (True, tbl)"
    by (cases "checkRateLimit (date_now w) (clientIp req) (requestCounts st)") auto
  from a have m: "body_message (JObj fs) = JStr (js ''Task completed'')"
    by (simp add: body_message_def js_or_def)
  with a have p: "passes_validation (JObj fs)"
    by (simp add: passes_validation_def default_texts_valid)
  from a notify_valid[OF _ p, of req cfg w "st\<lparr>requestCounts := tbl\<rparr>"] p
  have "fst (notify cfg w req (st\<lparr>requestCounts := tbl\<rparr>)) = Inr ()"
    by (simp add: sendNotification_valid_returns passes_validation_def)
  with a c fetch_notify_admitted[of req w st tbl cfg]
  show "resp_status (fst (fetch cfg w req st)) = 200"
    by (cases "notify cfg w req (st\<lparr>requestCounts := tbl\<rparr>)") auto
next
  assume "\<not> truthy (get_prop (JObj fs) (js ''message''))"
  then show "fetch cfg w (req\<lparr>req_json := Inr (JObj fs)\<rparr>) st
      = fetch cfg w (req\<lparr>req_json :=
          Inr (JObj (AList.update (js ''message'') (JStr (js ''Task completed'')) fs))\<rparr>) st"
    by (intro fetch_cong_notify default_message_same_notify)
next
  assume "\<not> truthy (get_prop (JObj fs) (js ''title''))"
  then show "fetch cfg w (req\<lparr>req_json := Inr (JObj fs)\<rparr>) st
      = fetch cfg w (req\<lparr>req_json :=
          Inr (JObj (AList.update (js ''title'') (JStr (js ''PAI Notification'')) fs))\<rparr>) st"
    by (intro fetch_cong_notify default_title_same_notify)
qed (rule default_texts_valid)+

theorem notify_default_message_witness:
  "\<not> truthy (get_prop (JObj [(js ''message'', JStr [])]) (js ''message'')) \<and>
   fetch config0 world0 (post_notify (JObj [(js ''message'', JStr [])])) state0
     = fetch config0 world0 (post_notify (JObj [(js ''message'', JStr (js ''Task completed''))])) state0 \<and>
   \<not> truthy (get_prop (JObj []) (js ''message'')) \<and>
   fetch config0 world0 (post_notify (JObj [])) state0
     = fetch config0 world0 (post_notify (JObj [(js ''message'', JStr (js ''Task completed''))])) state0 \<and>
   \<not> truthy (get_prop (JObj []) (js ''title'')) \<and>
   fetch config0 world0 (post_notify (JObj [])) state0
     = fetch config0 world0 (post_notify (JObj [(js ''title'', JStr (js ''PAI Notification''))])) state0 \<and>
   resp_status (fst (fetch config0 world0 (post_notify (JObj [(js ''message'', JStr [])])) state0)) = 200"
proof -
  let ?e = "JObj [(js ''message'', JStr [])]"
  have u: "(post_notify d)\<lparr>req_json := Inr d'\<rparr> = post_notify d'" for d d'
    by (simp add: post_notify_def)
  have h1: "\<not> truthy (get_prop ?e (js ''message''))" by simp
  have h2: "\<not> truthy (get_prop (JObj []) (js ''message''))" by simp
  have h3: "\<not> truthy (get_prop (JObj []) (js ''title''))" by simp
  have c1: "fetch config0 world0 (post_notify ?e) state0
     = fetch config0 world0 (post_notify (JObj [(js ''message'', JStr (js ''Task completed''))])) state0"
    using notify_default_message[of "[(js ''message'', JStr [])]" config0 world0 "post_notify ?e" state0,
            THEN conjunct1] h1
    by (simp add: u)
  have c2: "fetch config0 world0 (post_notify (JObj [])) state0
     = fetch config0 world0 (post_notify (JObj [(js ''message'', JStr (js ''Task completed''))])) state0"
    using notify_default_message[of "[]" config0 world0 "post_notify (JObj [])" state0, THEN conjunct1] h2
    by (simp add: u)
  have c3: "fetch config0 world0 (post_notify (JObj [])) state0
     = fetch config0 world0 (post_notify (JObj [(js ''title'', JStr (js ''PAI Notification''))])) state0"
    using notify_default_message[of "[]" config0 world0 "post_notify (JObj [])" state0, THEN conjunct2,
            THEN conjunct1] h3
    by (simp add: u)
  have t: "body_title ?e = JStr (js ''PAI Notification'')" "\<not> truthy (body_voiceId ?e)"
    by (simp_all add: body_title_def body_voiceId_def js_or_def js_def)
  have a: "fst (checkRateLimit (date_now world0) (clientIp (post_notify ?e)) (requestCounts state0))"
    by (simp add: checkRateLimit_def state0_def)
  have c4: "resp_status (fst (fetch config0 world0 (post_notify ?e) state0)) = 200"
    using notify_default_message[of "[(js ''message'', JStr [])]" config0 world0 "post_notify ?e" state0,
            THEN conjunct2, THEN conjunct2, THEN conjunct2, THEN conjunct2] h1 t a
    by (simp add: post_notify_def default_texts_valid)
  from h1 h2 h3 c1 c2 c3 c4 show ?thesis by blast
qed

section \<open>The explicit marker comes first in the cascade\<close>

lemma split_on_no_sep: "\<forall>c\<in>set w. \<not> P c \<Longrightarrow> split_on P w = [w]"
  by (induction w) auto

lemma split_on_sep:
  "\<forall>c\<in>set w. \<not> P c \<Longrightarrow> P d \<Longrightarrow> split_on P (w @ d # rest) = w # split_on P rest"
  by (induction w) auto

lemma split_on_pieces: "x \<in> set (split_on P s) \<Longrightarrow> \<forall>c\<in>set x. \<not> P c"
proof (induction s arbitrary: x)
  case Nil
  then show ?case by simp
next
  case (Cons a s)
  note IH = Cons.IH and prems = Cons.prems
  show ?case
  proof (cases "split_on P s")
    case Nil
    with prems show ?thesis by (auto split: if_splits)
  next
    case ps: (Cons y ys)
    have y: "\<forall>c\<in>set y. \<not> P c" using IH[of y] ps by simp
    have ys: "\<forall>c\<in>set z. \<not> P c" if "z \<in> set ys" for z using IH[of z] ps that by simp
    from prems ps have "x = [] \<or> x \<in> set (y # ys) \<or> (\<not> P a \<and> x = a # y)"
      by (auto split: if_splits)
    with y ys show ?thesis by auto
  qed
qed

lemma split_on_join:
  "\<forall>w\<in>set ws. \<forall>c\<in>set w. \<not> is_space c \<Longrightarrow> ws \<noteq> [] \<Longrightarrow>
   split_on is_space (join_words ws) = ws"
proof (induction ws rule: join_words.induct)
  case 1
  then show ?case by simp
next
  case (2 w)
  then show ?case by (simp add: split_on_no_sep)
next
  case (3 w v ws)
  have sp: "is_space 0x20" by (simp add: is_space_def)
  have "split_on is_space (w @ 0x20 # join_words (v # ws)) = w # split_on is_space (join_words (v # ws))"
    using 3(2) sp by (intro split_on_sep) auto
  with 3 show ?case by simp
qed

lemma words_of_join:
  assumes "\<forall>w\<in>set ws. w \<noteq> [] \<and> (\<forall>c\<in>set w. \<not> is_space c)"
  shows "words_of (join_words ws) = ws"
proof (cases "ws = []")
  case True
  then show ?thesis by (simp add: words_of_def)
next
  case False
  with assms have "split_on is_space (join_words ws) = ws" by (intro split_on_join) auto
  with assms show ?thesis by (simp add: words_of_def filter_id_conv)
qed

lemma words_of_words: "w \<in> set (words_of s) \<Longrightarrow> w \<noteq> [] \<and> (\<forall>c\<in>set w. \<not> is_space c)"
  using split_on_pieces[of w is_space s] by (auto simp: words_of_def)

lemma truncate_words_count: "length (words_of (truncate_words s)) \<le> 10"
proof -
  have "\<forall>w\<in>set (take 10 (words_of s)). w \<noteq> [] \<and> (\<forall>c\<in>set w. \<not> is_space c)"
    using words_of_words by (meson in_set_takeD)
  then have "words_of (truncate_words s) = take 10 (words_of s)"
    unfolding truncate_words_def by (rule words_of_join)
  then show ?thesis by simp
qed

lemma description_at_most_ten_words: "length (words_of (extract_description P t)) \<le> 10"
  by (simp add: extract_description_def Let_def truncate_words_count)






end
